theory Spec2Isabelle
  imports Complex_Main "HOL-Library.Sublist" "HOL-Library.AList"
begin

section \<open>compare_profiles.py: comparing two pprof CPU profiles\<close>

text \<open>
  A shallow embedding of \<^verbatim>\<open>tools/benchmark_compare/compare_profiles.py\<close>.

  Conventions of the embedding:
  \<^item> a Python \<^verbatim>\<open>float\<close> is a \<^typ>\<open>real\<close>: arithmetic is exact and every value is
    finite, so rounding is outside the model; the infinities and NaN are added where a
    statement depends on them, in a second model of the comparison;
  \<^item> a Python \<^verbatim>\<open>str\<close> is a \<^typ>\<open>string\<close>, a \<^typ>\<open>char\<close> standing for the code point of
    the same number (code points below 256);
  \<^item> a raised exception is the \<open>Inl\<close> of a sum type;
  \<^item> a \<^verbatim>\<open>dict\<close> is an association list in insertion order, a \<^verbatim>\<open>set\<close> is a list
    without duplicates in its iteration order;
  \<^item> what the Python library decides and the script does not (regular expressions given
    on the command line, the order in which a set is iterated, the text of a formatted
    float) is a parameter of the functions that depend on it.
\<close>

subsection \<open>Exceptions\<close>

datatype py_error = ValueError | ZeroDivisionError | KeyError | IndexError | ReError | SystemExit

definition bindE :: "py_error + 'a \<Rightarrow> ('a \<Rightarrow> py_error + 'b) \<Rightarrow> py_error + 'b" where
  "bindE m f = (case m of Inl e \<Rightarrow> Inl e | Inr x \<Rightarrow> f x)"

definition py_div :: "real \<Rightarrow> real \<Rightarrow> py_error + real" where
  "py_div a b = (if b = 0 then Inl ZeroDivisionError else Inr (a / b))"

subsection \<open>String primitives\<close>

text \<open>\<^verbatim>\<open>s.startswith(p)\<close> and \<^verbatim>\<open>sub in s\<close>.\<close>

fun startswith :: "string \<Rightarrow> string \<Rightarrow> bool" where
  "startswith s [] = True"
| "startswith [] (p # ps) = False"
| "startswith (c # cs) (p # ps) = (c = p \<and> startswith cs ps)"

fun contains :: "string \<Rightarrow> string \<Rightarrow> bool" where
  "contains [] sub = (sub = [])"
| "contains (c # cs) sub = (startswith (c # cs) sub \<or> contains cs sub)"

subsection \<open>Characters and regular-expression pieces\<close>

text \<open>
  The classes \<^verbatim>\<open>\d\<close> and \<^verbatim>\<open>\s\<close> of the module \<^verbatim>\<open>re\<close> on code points below 256;
  \<^verbatim>\<open>str.strip\<close> removes the same white space.
\<close>

definition is_digit :: "char \<Rightarrow> bool" where
  "is_digit c = (c \<in> set ''0123456789'')"

definition is_space :: "char \<Rightarrow> bool" where
  "is_space c = (c \<in> set [CHR 0x09, CHR 0x0A, CHR 0x0B, CHR 0x0C, CHR 0x0D,
                            CHR 0x1C, CHR 0x1D, CHR 0x1E, CHR 0x1F, CHR 0x20,
                            CHR 0x85, CHR 0xA0])"

definition is_num_char :: "char \<Rightarrow> bool" where
  "is_num_char c = (is_digit c \<or> c = CHR ''.'')"

definition strip :: "string \<Rightarrow> string" where
  "strip s = rev (dropWhile is_space (rev (dropWhile is_space s)))"

text \<open>
  Each piece consumes a prefix of the text and returns what follows it (and the group
  it captures). The pieces of the three patterns of the script follow one another
  without backtracking: a greedy class is always followed by a character outside it,
  the tail of the row pattern apart, which \<open>match_tail\<close> handles.
\<close>

definition match_number :: "string \<Rightarrow> (string \<times> string) option" where
  \<comment> \<open>\<^verbatim>\<open>([\d.]+)\<close>\<close>
  "match_number s =
     (let tok = takeWhile is_num_char s
      in if tok = [] then None else Some (tok, dropWhile is_num_char s))"

definition match_unit :: "string \<Rightarrow> (string \<times> string) option" where
  \<comment> \<open>\<^verbatim>\<open>(ms|s)\<close>\<close>
  "match_unit s =
     (if startswith s ''ms'' then Some (''ms'', drop 2 s)
      else if startswith s ''s'' then Some (''s'', drop 1 s)
      else None)"

definition match_spaces1 :: "string \<Rightarrow> string option" where
  \<comment> \<open>\<^verbatim>\<open>\s+\<close>\<close>
  "match_spaces1 s =
     (if takeWhile is_space s = [] then None else Some (dropWhile is_space s))"

definition match_pct :: "string \<Rightarrow> string option" where
  \<comment> \<open>\<^verbatim>\<open>[\d.]+%\<close>\<close>
  "match_pct s =
     (case match_number s of
        None \<Rightarrow> None
      | Some (tok, r) \<Rightarrow> (if startswith r ''%'' then Some (drop 1 r) else None))"

definition match_tail :: "string \<Rightarrow> string option" where
  \<comment> \<open>\<^verbatim>\<open>\s+(.+)$\<close> on a text without a newline: when only white space is left, the
      greedy \<^verbatim>\<open>\s+\<close> gives its last character back to the group\<close>
  "match_tail s =
     (let ws = takeWhile is_space s; rest = dropWhile is_space s
      in if ws = [] then None
         else if rest \<noteq> [] then Some rest
         else if length ws \<ge> 2 then Some [last ws]
         else None)"

definition row_match :: "string \<Rightarrow> (string \<times> string \<times> string \<times> string \<times> string) option" where
  \<comment> \<open>\<^verbatim>\<open>pattern.match(line)\<close> for a line of \<^verbatim>\<open>output.split("\n")\<close>; the result is
      groups 1 to 5\<close>
  "row_match line =
     Option.bind (match_number (dropWhile is_space line)) (\<lambda>(g1, r1).
     Option.bind (match_unit r1) (\<lambda>(g2, r2).
     Option.bind (match_spaces1 r2) (\<lambda>r3.
     Option.bind (match_pct r3) (\<lambda>r4.
     Option.bind (match_spaces1 r4) (\<lambda>r5.
     Option.bind (match_pct r5) (\<lambda>r6.
     Option.bind (match_spaces1 r6) (\<lambda>r7.
     Option.bind (match_number r7) (\<lambda>(g3, r8).
     Option.bind (match_unit r8) (\<lambda>(g4, r9).
     Option.bind (match_spaces1 r9) (\<lambda>r10.
     Option.bind (match_pct r10) (\<lambda>r11.
     Option.bind (match_tail r11) (\<lambda>g5.
       Some (g1, g2, g3, g4, g5)))))))))))))"

definition total_match_at :: "string \<Rightarrow> (string \<times> string) option" where
  \<comment> \<open>\<^verbatim>\<open>Total samples\s*=\s*([\d.]+)(ms|s)\<close> at the start of the text\<close>
  "total_match_at s =
     (if startswith s ''Total samples'' then
        (case dropWhile is_space (drop 13 s) of
           [] \<Rightarrow> None
         | c # r \<Rightarrow>
             if c = CHR ''='' then
               Option.bind (match_number (dropWhile is_space r)) (\<lambda>(g1, r1).
               Option.bind (match_unit r1) (\<lambda>(g2, r2). Some (g1, g2)))
             else None)
      else None)"

definition duration_match_at :: "string \<Rightarrow> string option" where
  \<comment> \<open>\<^verbatim>\<open>Duration:\s*([\d.]+)s\<close> at the start of the text\<close>
  "duration_match_at s =
     (if startswith s ''Duration:'' then
        Option.bind (match_number (dropWhile is_space (drop 9 s))) (\<lambda>(g1, r1).
          if startswith r1 ''s'' then Some g1 else None)
      else None)"

text \<open>\<^verbatim>\<open>re.search\<close>: the match at the leftmost position that has one.\<close>

fun re_search_at :: "(string \<Rightarrow> 'a option) \<Rightarrow> string \<Rightarrow> 'a option" where
  "re_search_at m [] = m []"
| "re_search_at m (c # cs) =
     (case m (c # cs) of Some g \<Rightarrow> Some g | None \<Rightarrow> re_search_at m cs)"

text \<open>\<^verbatim>\<open>output.split("\n")\<close>.\<close>

fun split_lines :: "string \<Rightarrow> string list" where
  "split_lines [] = [[]]"
| "split_lines (c # cs) =
     (if c = CHR 0x0A then [] # split_lines cs
      else (case split_lines cs of [] \<Rightarrow> [[c]] | l # ls \<Rightarrow> (c # l) # ls))"

subsection \<open>float\<close>

text \<open>
  \<^verbatim>\<open>float(tok)\<close> for a token of digits and dots, which is all the patterns capture:
  digits with at most one dot and at least one digit, anything else is a
  \<^verbatim>\<open>ValueError\<close>. The value is the exact one; \<open>py_float_fl\<close> below adds the overflow to
  infinity.
\<close>

definition digit_val :: "char \<Rightarrow> nat" where
  "digit_val c = of_char c - 48"

definition digits_val :: "string \<Rightarrow> nat" where
  "digits_val ds = foldl (\<lambda>a c. 10 * a + digit_val c) 0 ds"

definition py_float :: "string \<Rightarrow> py_error + real" where
  "py_float tok =
     (let ip = takeWhile is_digit tok; r = dropWhile is_digit tok
      in if r = [] then
           (if ip = [] then Inl ValueError else Inr (real (digits_val ip)))
         else if hd r = CHR ''.'' \<and> list_all is_digit (tl r) \<and> (ip \<noteq> [] \<or> tl r \<noteq> []) then
           Inr (real (digits_val ip) + real (digits_val (tl r)) / 10 ^ length (tl r))
         else Inl ValueError)"

subsection \<open>parse_pprof_output\<close>

type_synonym cost_table = "(string \<times> real \<times> real) list"

definition to_ms :: "real \<Rightarrow> string \<Rightarrow> real" where
  \<comment> \<open>\<^verbatim>\<open>val if unit == "ms" else val * 1000\<close>\<close>
  "to_ms val unit = (if unit = ''ms'' then val else val * 1000)"

fun parse_lines :: "string list \<Rightarrow> cost_table \<Rightarrow> py_error + cost_table" where
  "parse_lines [] functions = Inr functions"
| "parse_lines (line # lines) functions =
     (case row_match line of
        None \<Rightarrow> parse_lines lines functions
      | Some (g1, g2, g3, g4, g5) \<Rightarrow>
          (case py_float g1 of
             Inl e \<Rightarrow> Inl e
           | Inr flat_val \<Rightarrow>
               (case py_float g3 of
                  Inl e \<Rightarrow> Inl e
                | Inr cum_val \<Rightarrow>
                    parse_lines lines
                      (AList.update (strip g5) (to_ms flat_val g2, to_ms cum_val g4) functions))))"

definition parse_pprof_output :: "string \<Rightarrow> py_error + (cost_table \<times> real option \<times> real option)" where
  "parse_pprof_output out =
     bindE (case re_search_at total_match_at out of
              None \<Rightarrow> Inr None
            | Some (g1, g2) \<Rightarrow> bindE (py_float g1) (\<lambda>val. Inr (Some (to_ms val g2)))) (\<lambda>total_samples.
     bindE (case re_search_at duration_match_at out of
              None \<Rightarrow> Inr None
            | Some g1 \<Rightarrow> bindE (py_float g1) (\<lambda>d. Inr (Some d))) (\<lambda>duration.
     bindE (parse_lines (split_lines out) []) (\<lambda>functions.
       Inr (functions, total_samples, duration))))"

subsection \<open>should_exclude\<close>

text \<open>
  \<open>rs pattern func_name\<close> is \<^verbatim>\<open>re.search(pattern, func_name)\<close> for a pattern of the
  command line: whether there is a match, or \<open>None\<close> where \<^verbatim>\<open>re.search\<close> raises
  \<^verbatim>\<open>re.error\<close>, the pattern not being a regular expression.
\<close>

type_synonym re_search = "string \<Rightarrow> string \<Rightarrow> bool option"

fun should_exclude :: "re_search \<Rightarrow> string \<Rightarrow> string list \<Rightarrow> py_error + bool" where
  "should_exclude rs func_name [] = Inr False"
| "should_exclude rs func_name (pat # pats) =
     (case rs pat func_name of
        None \<Rightarrow> Inl ReError
      | Some m \<Rightarrow> if m then Inr True else should_exclude rs func_name pats)"

subsection \<open>categorize_function\<close>

definition categorize_function :: "string \<Rightarrow> string" where
  "categorize_function func_name =
     (if startswith func_name ''game_main/'' then ''YOUR_CODE''
      else if startswith func_name ''runtime.'' then ''RUNTIME''
      else if contains func_name ''ebiten'' \<or> contains func_name ''ebitenui'' then ''EBITEN''
      else if contains func_name ''ecs'' then ''ECS''
      else ''OTHER'')"

subsection \<open>Formatting\<close>

text \<open>
  The text Python produces for a float under a format specification is taken as a
  parameter: \<open>fixed0\<close> is \<^verbatim>\<open>{x:.0f}\<close>, \<open>grouped0\<close> is \<^verbatim>\<open>{x:,.0f}\<close>, \<open>fixed1\<close> is
  \<^verbatim>\<open>{x:.1f}\<close> and \<open>plain\<close> is \<^verbatim>\<open>{x}\<close>.
\<close>

record float_format =
  fixed0 :: "real \<Rightarrow> string"
  grouped0 :: "real \<Rightarrow> string"
  fixed1 :: "real \<Rightarrow> string"
  plain :: "real \<Rightarrow> string"

definition format_ms :: "float_format \<Rightarrow> real \<Rightarrow> string" where
  "format_ms fmt ms =
     (if ms \<ge> 1000 then grouped0 fmt ms @ ''ms'' else fixed0 fmt ms @ ''ms'')"

definition format_change :: "float_format \<Rightarrow> real \<Rightarrow> real \<Rightarrow> py_error + string" where
  "format_change fmt old_val new_val =
     (if old_val = 0 then
        (if new_val = 0 then Inr ''0%'' else Inr ''+NEW'')
      else
        bindE (py_div (new_val - old_val) old_val) (\<lambda>q.
          let pct = q * 100;
              sign = (if pct > 0 then ''+'' else '''')
          in Inr (sign @ fixed0 fmt pct @ ''%'')))"

subsection \<open>The comparison of one function\<close>

text \<open>
  The command-line arguments, as \<^verbatim>\<open>parse_args\<close> returns them; \<open>top_n\<close> is
  \<^verbatim>\<open>args.top\<close> and \<open>output_file\<close> is \<^verbatim>\<open>args.output\<close>.
\<close>

record args =
  old_profile :: string
  new_profile :: string
  threshold :: real
  min_delta :: real
  exclude :: "string list"
  top_n :: int
  nodecount :: int
  output_file :: "string option"

text \<open>The ten-tuple \<^verbatim>\<open>entry\<close> built for every common function.\<close>

record entry =
  name :: string
  category :: string
  old_flat :: real
  new_flat :: real
  flat_delta :: real
  flat_pct :: real
  old_cum :: real
  new_cum :: real
  cum_delta :: real
  cum_pct :: real

text \<open>
  \<^verbatim>\<open>((delta / old) * 100) if old > 0 else (100 if new > 0 else 0)\<close>,
  the division being Python's, which raises on a zero divisor.
\<close>

definition pct_change :: "real \<Rightarrow> real \<Rightarrow> real \<Rightarrow> py_error + real" where
  "pct_change delta old new =
     (if old > 0 then bindE (py_div delta old) (\<lambda>q. Inr (q * 100))
      else Inr (if new > 0 then 100 else 0))"

definition make_entry :: "string \<Rightarrow> real \<times> real \<Rightarrow> real \<times> real \<Rightarrow> py_error + entry" where
  "make_entry nm old new =
     (case old of (oflat, ocum) \<Rightarrow> case new of (nflat, ncum) \<Rightarrow>
        let fdelta = nflat - oflat;
            cdelta = ncum - ocum
        in bindE (pct_change fdelta oflat nflat) (\<lambda>fpct.
           bindE (pct_change cdelta ocum ncum) (\<lambda>cpct.
             Inr \<lparr>name = nm, category = categorize_function nm,
                  old_flat = oflat, new_flat = nflat, flat_delta = fdelta, flat_pct = fpct,
                  old_cum = ocum, new_cum = ncum, cum_delta = cdelta, cum_pct = cpct\<rparr>)))"

definition is_regression :: "args \<Rightarrow> entry \<Rightarrow> bool" where
  "is_regression a e =
     ((cum_pct e > threshold a \<and> \<bar>cum_delta e\<bar> > min_delta a)
      \<or> (flat_pct e > threshold a \<and> \<bar>flat_delta e\<bar> > min_delta a))"

definition is_improvement :: "args \<Rightarrow> entry \<Rightarrow> bool" where
  "is_improvement a e =
     ((cum_pct e < - threshold a \<and> \<bar>cum_delta e\<bar> > min_delta a)
      \<or> (flat_pct e < - threshold a \<and> \<bar>flat_delta e\<bar> > min_delta a))"

subsection \<open>Dictionaries and sets\<close>

definition keys :: "(string \<times> 'v) list \<Rightarrow> string list" where
  "keys d = map fst d"

definition dict_get :: "(string \<times> 'v) list \<Rightarrow> string \<Rightarrow> py_error + 'v" where
  \<comment> \<open>\<^verbatim>\<open>d[k]\<close>\<close>
  "dict_get d k = (case map_of d k of None \<Rightarrow> Inl KeyError | Some v \<Rightarrow> Inr v)"

text \<open>
  A set is a list without duplicates. The order in which Python iterates over a set is
  not the script's to choose: \<open>it s\<close>, a parameter, is the order in which the set \<open>s\<close>
  is iterated.
\<close>

type_synonym set_iter = "string list \<Rightarrow> string list"

definition set_of :: "string list \<Rightarrow> string list" where
  \<comment> \<open>\<^verbatim>\<open>set(xs)\<close>\<close>
  "set_of xs = remdups xs"

definition set_and :: "string list \<Rightarrow> string list \<Rightarrow> string list" where
  \<comment> \<open>\<^verbatim>\<open>a & b\<close>\<close>
  "set_and a b = filter (\<lambda>x. x \<in> set b) a"

definition set_minus :: "string list \<Rightarrow> string list \<Rightarrow> string list" where
  \<comment> \<open>\<^verbatim>\<open>a - b\<close>\<close>
  "set_minus a b = filter (\<lambda>x. x \<notin> set b) a"

definition set_add :: "string \<Rightarrow> string list \<Rightarrow> string list" where
  \<comment> \<open>\<^verbatim>\<open>s.add(x)\<close>\<close>
  "set_add x s = (if x \<in> set s then s else s @ [x])"

definition set_discard :: "string \<Rightarrow> string list \<Rightarrow> string list" where
  \<comment> \<open>\<^verbatim>\<open>s.discard(x)\<close>\<close>
  "set_discard x s = removeAll x s"

subsection \<open>main: the comparison\<close>

text \<open>
  The loop \<^verbatim>\<open>for name in list(common_names)\<close> that moves the excluded names; the
  state is \<^verbatim>\<open>(excluded, common_names)\<close>.
\<close>

fun exclude_loop ::
  "re_search \<Rightarrow> string list \<Rightarrow> string list \<Rightarrow> string list \<times> string list
     \<Rightarrow> py_error + (string list \<times> string list)" where
  "exclude_loop rs pats [] st = Inr st"
| "exclude_loop rs pats (nm # names) (excluded, common_names) =
     (case should_exclude rs nm pats of
        Inl e \<Rightarrow> Inl e
      | Inr b \<Rightarrow>
          if b then exclude_loop rs pats names (set_add nm excluded, set_discard nm common_names)
          else exclude_loop rs pats names (excluded, common_names))"

text \<open>
  The loop \<^verbatim>\<open>for name in common_names\<close> that builds the entries; the state is
  \<^verbatim>\<open>(regressions, improvements, stable)\<close>.
\<close>

fun compare_loop ::
  "args \<Rightarrow> cost_table \<Rightarrow> cost_table \<Rightarrow> string list
     \<Rightarrow> entry list \<times> entry list \<times> entry list
     \<Rightarrow> py_error + (entry list \<times> entry list \<times> entry list)" where
  "compare_loop a old_funcs new_funcs [] st = Inr st"
| "compare_loop a old_funcs new_funcs (nm # names) (regs, imps, stab) =
     (case dict_get old_funcs nm of
        Inl e \<Rightarrow> Inl e
      | Inr old \<Rightarrow>
          (case dict_get new_funcs nm of
             Inl e \<Rightarrow> Inl e
           | Inr new \<Rightarrow>
               (case make_entry nm old new of
                  Inl e \<Rightarrow> Inl e
                | Inr en \<Rightarrow>
                    if is_regression a en then
                      compare_loop a old_funcs new_funcs names (regs @ [en], imps, stab)
                    else if is_improvement a en then
                      compare_loop a old_funcs new_funcs names (regs, imps @ [en], stab)
                    else
                      compare_loop a old_funcs new_funcs names (regs, imps, stab @ [en]))))"

text \<open>
  \<^verbatim>\<open>xs.sort(key=k)\<close> and \<^verbatim>\<open>xs.sort(key=k, reverse=True)\<close>: both are stable, the
  second keeps equal keys in their original order too. The keys are numbers here;
  \<open>list_sort\<close> below is the sort on keys that may be NaN.
\<close>

definition sort_asc :: "('a \<Rightarrow> real) \<Rightarrow> 'a list \<Rightarrow> 'a list" where
  "sort_asc k xs = sort_key k xs"

definition sort_desc :: "('a \<Rightarrow> real) \<Rightarrow> 'a list \<Rightarrow> 'a list" where
  "sort_desc k xs = sort_key (\<lambda>x. - k x) xs"

text \<open>What \<^verbatim>\<open>main\<close> holds once the lists are sorted (lines 222 to 267).\<close>

record comparison =
  common_names :: "string list"
  excluded :: "string list"
  regressions :: "entry list"
  improvements :: "entry list"
  stable :: "entry list"

definition compare :: "re_search \<Rightarrow> set_iter \<Rightarrow> args \<Rightarrow> cost_table \<Rightarrow> cost_table
                         \<Rightarrow> py_error + comparison" where
  "compare rs it a old_funcs new_funcs =
     (let common0 = set_and (set_of (keys old_funcs)) (set_of (keys new_funcs))
      in bindE (exclude_loop rs (exclude a) (it common0) ([], common0)) (\<lambda>(excl, common).
         bindE (compare_loop a old_funcs new_funcs (it common) ([], [], [])) (\<lambda>(regs, imps, stab).
           Inr \<lparr>common_names = common, excluded = excl,
                regressions = sort_desc cum_delta regs,
                improvements = sort_asc cum_delta imps,
                stable = stab\<rparr>)))"

text \<open>
  The new-only and the removed-only functions (lines 355 to 363 and 374 to 382, the same
  code with the two tables exchanged): \<open>funcs\<close> is the table the names come from,
  \<open>other\<close> the table they are absent from.
\<close>

fun only_loop ::
  "re_search \<Rightarrow> string list \<Rightarrow> cost_table \<Rightarrow> string list \<Rightarrow> (string \<times> real \<times> real) list
     \<Rightarrow> py_error + (string \<times> real \<times> real) list" where
  "only_loop rs pats funcs [] acc = Inr acc"
| "only_loop rs pats funcs (nm # names) acc =
     (case should_exclude rs nm pats of
        Inl e \<Rightarrow> Inl e
      | Inr b \<Rightarrow>
          if b then only_loop rs pats funcs names acc
          else
            (case dict_get funcs nm of
               Inl e \<Rightarrow> Inl e
             | Inr (flat, cum) \<Rightarrow>
                 if cum > 200 then only_loop rs pats funcs names (acc @ [(nm, flat, cum)])
                 else only_loop rs pats funcs names acc))"

definition only_filtered ::
  "re_search \<Rightarrow> set_iter \<Rightarrow> args \<Rightarrow> cost_table \<Rightarrow> cost_table \<Rightarrow> string list
     \<Rightarrow> py_error + (string \<times> real \<times> real) list" where
  "only_filtered rs it a funcs other excl =
     (let only = set_minus (set_minus (set_of (keys funcs)) (set_of (keys other))) excl
      in bindE (only_loop rs (exclude a) funcs (it only) []) (\<lambda>filtered.
           Inr (sort_desc (\<lambda>x. snd (snd x)) filtered)))"

definition new_only_filtered ::
  "re_search \<Rightarrow> set_iter \<Rightarrow> args \<Rightarrow> cost_table \<Rightarrow> cost_table \<Rightarrow> string list
     \<Rightarrow> py_error + (string \<times> real \<times> real) list" where
  "new_only_filtered rs it a old_funcs new_funcs excl = only_filtered rs it a new_funcs old_funcs excl"

definition old_only_filtered ::
  "re_search \<Rightarrow> set_iter \<Rightarrow> args \<Rightarrow> cost_table \<Rightarrow> cost_table \<Rightarrow> string list
     \<Rightarrow> py_error + (string \<times> real \<times> real) list" where
  "old_only_filtered rs it a old_funcs new_funcs excl = only_filtered rs it a old_funcs new_funcs excl"

subsection \<open>Writing the report\<close>

text \<open>
  The report is the list of the texts written to \<^verbatim>\<open>out\<close>, one for every call of
  \<^verbatim>\<open>out.write\<close>. A step of the report takes what has been written so far and returns
  it extended, with the exception that stopped it, if any. The rule character of the
  section separators is written as its three bytes in UTF-8.
\<close>

type_synonym stage = "string list \<Rightarrow> string list \<times> py_error option"

definition out_write :: "string \<Rightarrow> stage" where
  "out_write s out = (out @ [s], None)"

definition out_skip :: stage where
  "out_skip out = (out, None)"

definition out_seq :: "stage \<Rightarrow> stage \<Rightarrow> stage" where
  "out_seq f g out = (case f out of (out', None) \<Rightarrow> g out' | (out', Some e) \<Rightarrow> (out', Some e))"

fun out_seqs :: "stage list \<Rightarrow> stage" where
  "out_seqs [] = out_skip"
| "out_seqs (f # fs) = out_seq f (out_seqs fs)"

definition out_eval :: "py_error + 'a \<Rightarrow> ('a \<Rightarrow> stage) \<Rightarrow> stage" where
  \<comment> \<open>evaluate an expression that may raise, then go on with its value\<close>
  "out_eval m k out = (case m of Inl e \<Rightarrow> (out, Some e) | Inr x \<Rightarrow> k x out)"

fun mapE :: "('a \<Rightarrow> py_error + 'b) \<Rightarrow> 'a list \<Rightarrow> py_error + 'b list" where
  "mapE f [] = Inr []"
| "mapE f (x # xs) =
     (case f x of
        Inl e \<Rightarrow> Inl e
      | Inr y \<Rightarrow> (case mapE f xs of Inl e \<Rightarrow> Inl e | Inr ys \<Rightarrow> Inr (y # ys)))"

definition rule_char :: string where
  "rule_char = [CHR 0xE2, CHR 0x94, CHR 0x80]"

definition rule_line :: string where
  \<comment> \<open>the rule character, 80 times\<close>
  "rule_line = concat (replicate 80 rule_char)"

definition digit_char :: "nat \<Rightarrow> char" where
  "digit_char d = char_of (48 + d)"

fun str_nat :: "nat \<Rightarrow> string" where
  \<comment> \<open>\<^verbatim>\<open>str(n)\<close> for the result of \<^verbatim>\<open>len\<close>\<close>
  "str_nat n = (if n < 10 then [digit_char n] else str_nat (n div 10) @ [digit_char (n mod 10)])"

declare str_nat.simps [simp del]

definition ljust :: "string \<Rightarrow> nat \<Rightarrow> string" where
  "ljust s w = s @ replicate (w - length s) CHR '' ''"

fun join :: "string \<Rightarrow> string list \<Rightarrow> string" where
  "join sep [] = []"
| "join sep [x] = x"
| "join sep (x # y # ys) = x @ sep @ join sep (y # ys)"

definition slice_to :: "int \<Rightarrow> 'a list \<Rightarrow> 'a list" where
  \<comment> \<open>\<^verbatim>\<open>xs[:n]\<close>, a negative \<open>n\<close> counting from the end\<close>
  "slice_to n xs = (if n \<ge> 0 then take (nat n) xs else take (length xs - nat (- n)) xs)"

text \<open>
  \<^verbatim>\<open>s.replace(old, new)\<close> for a non-empty \<open>old\<close>, the only use the script makes of it.
\<close>

function replace :: "string \<Rightarrow> string \<Rightarrow> string \<Rightarrow> string" where
  "replace old new s =
     (if s = [] \<or> old = [] then s
      else if startswith s old then new @ replace old new (drop (length old) s)
      else hd s # replace old new (tl s))"
  by pat_completeness auto
termination
  by (relation "measure (\<lambda>(old, new, s). length s)") auto

declare replace.simps [simp del]

text \<open>\<^verbatim>\<open>shorten_func(name, max_len)\<close>; every call leaves \<open>max_len\<close> at its default, 55.\<close>

definition shorten_func :: "string \<Rightarrow> nat \<Rightarrow> string" where
  "shorten_func nm max_len =
     (let n1 = replace ''game_main/'' [] nm;
          n2 = replace ''github.com/hajimehoshi/ebiten/v2/'' ''ebiten/'' n1;
          n3 = replace ''github.com/ebitenui/ebitenui/'' ''ebitenui/'' n2;
          n4 = replace ''github.com/bytearena/ecs.'' ''ecs.'' n3;
          n5 = replace ''github.com/golang/freetype/'' ''freetype/'' n4;
          n6 = replace ''golang.org/x/sys/windows.'' ''windows.'' n5
      in if length n6 > max_len then take (max_len - 3) n6 @ ''...'' else n6)"

subsection \<open>print_table\<close>

fun widen_row :: "nat list \<Rightarrow> nat \<Rightarrow> string list \<Rightarrow> py_error + nat list" where
  \<comment> \<open>\<^verbatim>\<open>for i, cell in enumerate(row): col_widths[i] = max(col_widths[i], len(str(cell)))\<close>\<close>
  "widen_row ws i [] = Inr ws"
| "widen_row ws i (cell # cells) =
     (if i < length ws then widen_row (ws[i := max (ws ! i) (length cell)]) (Suc i) cells
      else Inl IndexError)"

fun widen_rows :: "nat list \<Rightarrow> string list list \<Rightarrow> py_error + nat list" where
  "widen_rows ws [] = Inr ws"
| "widen_rows ws (row # rows) =
     (case widen_row ws 0 row of Inl e \<Rightarrow> Inl e | Inr ws' \<Rightarrow> widen_rows ws' rows)"

definition print_table :: "string list \<Rightarrow> string list list \<Rightarrow> stage" where
  "print_table headers rows =
     (if rows = [] then out_write ''  (none)\<newline>''
      else
        out_eval (widen_rows (map length headers) rows) (\<lambda>col_widths.
          out_seqs
            ([out_write (''  '' @ join '' | '' (map2 ljust headers col_widths) @ ''\<newline>''),
              out_write (''  '' @ join ''-+-'' (map (\<lambda>w. replicate w CHR ''-'') col_widths) @ ''\<newline>'')]
             @ map (\<lambda>row. out_write (''  '' @ join '' | '' (map2 ljust row col_widths) @ ''\<newline>''))
                 rows)))"

subsection \<open>main: the report\<close>

definition truthy :: "real option \<Rightarrow> bool" where
  \<comment> \<open>the truth value Python gives \<^verbatim>\<open>None\<close> or a float\<close>
  "truthy x = (case x of None \<Rightarrow> False | Some v \<Rightarrow> v \<noteq> 0)"

definition write_header ::
  "float_format \<Rightarrow> args \<Rightarrow> comparison \<Rightarrow> real option \<Rightarrow> real option \<Rightarrow> real option \<Rightarrow> real option
     \<Rightarrow> stage" where
  "write_header fmt a c old_total old_duration new_total new_duration =
     out_seqs
       [out_write (replicate 80 CHR ''='' @ ''\<newline>''),
        out_write ''PPROF BENCHMARK COMPARISON\<newline>'',
        out_write (replicate 80 CHR ''='' @ ''\<newline>\<newline>''),
        out_write (''Old profile: '' @ old_profile a @ ''\<newline>''),
        out_write (''New profile: '' @ new_profile a @ ''\<newline>''),
        (if truthy old_duration then
           out_write (''Old duration: '' @ fixed1 fmt (the old_duration) @ ''s\<newline>'')
         else out_skip),
        (if truthy new_duration then
           out_write (''New duration: '' @ fixed1 fmt (the new_duration) @ ''s\<newline>'')
         else out_skip),
        (if truthy old_total \<and> truthy new_total then
           (let ot = the old_total; nt = the new_total; total_delta = nt - ot
            in out_eval (if ot \<noteq> 0 then bindE (py_div total_delta ot) (\<lambda>q. Inr (q * 100))
                         else Inr 0) (\<lambda>total_pct.
                 out_seqs
                   [out_write (''Old total samples: '' @ format_ms fmt ot @ ''\<newline>''),
                    out_write (''New total samples: '' @ format_ms fmt nt @ ''\<newline>''),
                    out_eval (format_change fmt ot nt) (\<lambda>chg.
                      out_write (''Total sample delta: '' @ format_ms fmt total_delta
                                   @ '' ('' @ chg @ '')\<newline>''))]))
         else out_skip),
        out_write (''\<newline>Common functions compared: '' @ str_nat (length (common_names c)) @ ''\<newline>''),
        out_write (''Excluded by patterns: '' @ str_nat (length (excluded c)) @ ''\<newline>''),
        out_write (''Regression threshold: >'' @ plain fmt (threshold a) @ ''% and >''
                     @ plain fmt (min_delta a) @ ''ms delta\<newline>''),
        out_write (''Regressions found: '' @ str_nat (length (regressions c)) @ ''\<newline>''),
        out_write (''Improvements found: '' @ str_nat (length (improvements c)) @ ''\<newline>''),
        out_write (''Stable: '' @ str_nat (length (stable c)) @ ''\<newline>'')]"

definition categories :: "string list" where
  "categories = [''YOUR_CODE'', ''ECS'', ''RUNTIME'', ''EBITEN'', ''OTHER'']"

definition entry_headers :: "string list" where
  "entry_headers = [''Function'', ''Old Flat'', ''New Flat'', ''Flat Chg'', ''Old Cum'', ''New Cum'', ''Cum Chg'']"

definition entry_row :: "float_format \<Rightarrow> entry \<Rightarrow> py_error + string list" where
  "entry_row fmt e =
     bindE (format_change fmt (old_flat e) (new_flat e)) (\<lambda>flat_chg.
     bindE (format_change fmt (old_cum e) (new_cum e)) (\<lambda>cum_chg.
       Inr [shorten_func (name e) 55,
            format_ms fmt (old_flat e), format_ms fmt (new_flat e), flat_chg,
            format_ms fmt (old_cum e), format_ms fmt (new_cum e), cum_chg]))"

definition write_entries :: "float_format \<Rightarrow> args \<Rightarrow> entry list \<Rightarrow> stage" where
  \<comment> \<open>the rows of the first \<^verbatim>\<open>args.top\<close> entries, then the table\<close>
  "write_entries fmt a es =
     out_eval (mapE (entry_row fmt) (slice_to (top_n a) es)) (\<lambda>rows.
       print_table entry_headers rows)"

fun write_regressions :: "float_format \<Rightarrow> args \<Rightarrow> entry list \<Rightarrow> string list \<Rightarrow> stage" where
  "write_regressions fmt a regs [] = out_skip"
| "write_regressions fmt a regs (cat # cats) =
     (let cat_regressions = filter (\<lambda>r. category r = cat) regs
      in if cat_regressions = [] then write_regressions fmt a regs cats
         else out_seq
                (out_seqs
                   [out_write (''\<newline>'' @ rule_line @ ''\<newline>''),
                    out_write (''REGRESSIONS: '' @ cat @ '' (sorted by cumulative delta)\<newline>''),
                    out_write (rule_line @ ''\<newline>''),
                    write_entries fmt a cat_regressions])
                (write_regressions fmt a regs cats))"

fun write_improvements ::
  "float_format \<Rightarrow> args \<Rightarrow> entry list \<Rightarrow> string list \<Rightarrow> bool \<Rightarrow> stage" where
  "write_improvements fmt a imps [] has_improvements = out_skip"
| "write_improvements fmt a imps (cat # cats) has_improvements =
     (let cat_improvements = filter (\<lambda>r. category r = cat) imps
      in if cat_improvements = [] then write_improvements fmt a imps cats has_improvements
         else out_seq
                (out_seqs
                   [(if \<not> has_improvements then
                       out_seqs
                         [out_write (''\<newline>'' @ rule_line @ ''\<newline>''),
                          out_write ''IMPROVEMENTS (sorted by cumulative delta)\<newline>'',
                          out_write (rule_line @ ''\<newline>'')]
                     else out_skip),
                    out_write (''\<newline>  ['' @ cat @ '']\<newline>''),
                    write_entries fmt a cat_improvements])
                (write_improvements fmt a imps cats True))"

definition write_only ::
  "float_format \<Rightarrow> args \<Rightarrow> string \<Rightarrow> (string \<times> real \<times> real) list \<Rightarrow> stage" where
  \<comment> \<open>the section of the new or of the removed functions, under its title\<close>
  "write_only fmt a title filtered =
     (if filtered \<noteq> [] then
        out_seqs
          [out_write (''\<newline>'' @ rule_line @ ''\<newline>''),
           out_write title,
           out_write (rule_line @ ''\<newline>''),
           print_table [''Function'', ''Flat'', ''Cum'']
             (map (\<lambda>(n, f, c). [shorten_func n 55, format_ms fmt f, format_ms fmt c])
                (slice_to (top_n a) filtered))]
      else out_skip)"

text \<open>
  \<^verbatim>\<open>main\<close>, from the parsed arguments on. \<open>pprof path nodecount\<close> is what
  \<^verbatim>\<open>run_pprof\<close> returns, \<open>None\<close> when it leaves through \<^verbatim>\<open>sys.exit(1)\<close>. The result is
  the text written to \<^verbatim>\<open>out\<close> and the exception that ended the run, if any; the
  messages on the error stream are left out.
\<close>

definition main ::
  "(string \<Rightarrow> int \<Rightarrow> string option) \<Rightarrow> re_search \<Rightarrow> set_iter \<Rightarrow> float_format \<Rightarrow> args
     \<Rightarrow> string list \<times> py_error option" where
  "main pprof rs it fmt a =
     (case pprof (old_profile a) (nodecount a) of
        None \<Rightarrow> ([], Some SystemExit)
      | Some old_output \<Rightarrow>
     (case parse_pprof_output old_output of
        Inl e \<Rightarrow> ([], Some e)
      | Inr (old_funcs, old_total, old_duration) \<Rightarrow>
     (case pprof (new_profile a) (nodecount a) of
        None \<Rightarrow> ([], Some SystemExit)
      | Some new_output \<Rightarrow>
     (case parse_pprof_output new_output of
        Inl e \<Rightarrow> ([], Some e)
      | Inr (new_funcs, new_total, new_duration) \<Rightarrow>
     (case compare rs it a old_funcs new_funcs of
        Inl e \<Rightarrow> ([], Some e)
      | Inr c \<Rightarrow>
          out_seqs
            [write_header fmt a c old_total old_duration new_total new_duration,
             write_regressions fmt a (regressions c) categories,
             write_improvements fmt a (improvements c) categories False,
             out_eval (new_only_filtered rs it a old_funcs new_funcs (excluded c))
               (write_only fmt a ''NEW FUNCTIONS (not in old profile, cum > 200ms)\<newline>''),
             out_eval (old_only_filtered rs it a old_funcs new_funcs (excluded c))
               (write_only fmt a ''REMOVED FUNCTIONS (in old profile only, cum > 200ms)\<newline>''),
             out_write (''\<newline>'' @ replicate 80 CHR ''='' @ ''\<newline>'')]
            [])))))"

text \<open>The defaults of \<^verbatim>\<open>parse_args\<close> for the two positional arguments alone.\<close>

definition default_args :: "string \<Rightarrow> string \<Rightarrow> args" where
  "default_args old new =
     \<lparr>old_profile = old, new_profile = new, threshold = 30, min_delta = 50, exclude = [],
      top_n = 20, nodecount = 300, output_file = None\<rparr>"

subsection \<open>The comparison on floats with infinities and NaN\<close>

text \<open>
  The reals above leave out what a float holds beyond the numbers, and one path of the
  script reaches it: \<^verbatim>\<open>float\<close> returns infinity for a token too large for a float (a 1
  followed by 309 zeros is one), the difference of two infinities is NaN, and every
  comparison with NaN is false. The part of \<^verbatim>\<open>main\<close> that parses, compares and sorts is
  therefore modelled once more over the values below. A finite value is still the exact
  real; a result at or beyond \<open>float_overflow\<close>, where rounding to the nearest float leaves
  the range, is an infinity. The threshold and the floor remain numbers.
\<close>

datatype pyfloat = Fin real | PInf | NInf | NaN

text \<open>
  The least magnitude that rounds to infinity: half way between the largest float,
  \<open>2 ^ 1024 - 2 ^ 971\<close>, and \<open>2 ^ 1024\<close>.
\<close>

definition float_overflow :: real where
  "float_overflow = 2 ^ 1024 - 2 ^ 970"

definition fl_of :: "real \<Rightarrow> pyfloat" where
  "fl_of r = (if r \<ge> float_overflow then PInf else if r \<le> - float_overflow then NInf else Fin r)"

text \<open>
  Subtraction, the multiplication by a positive constant (\<^verbatim>\<open>* 100\<close>, \<^verbatim>\<open>* 1000\<close>),
  Python's division, which raises on a zero divisor whatever the dividend, the
  comparisons and \<^verbatim>\<open>abs\<close>.
\<close>

fun fl_sub :: "pyfloat \<Rightarrow> pyfloat \<Rightarrow> pyfloat" where
  "fl_sub NaN y = NaN"
| "fl_sub x NaN = NaN"
| "fl_sub (Fin a) (Fin b) = fl_of (a - b)"
| "fl_sub (Fin a) PInf = NInf"
| "fl_sub (Fin a) NInf = PInf"
| "fl_sub PInf PInf = NaN"
| "fl_sub PInf y = PInf"
| "fl_sub NInf NInf = NaN"
| "fl_sub NInf y = NInf"

fun fl_times :: "pyfloat \<Rightarrow> real \<Rightarrow> pyfloat" where
  "fl_times (Fin a) c = fl_of (a * c)"
| "fl_times PInf c = PInf"
| "fl_times NInf c = NInf"
| "fl_times NaN c = NaN"

fun fl_div :: "pyfloat \<Rightarrow> pyfloat \<Rightarrow> py_error + pyfloat" where
  "fl_div x (Fin b) =
     (if b = 0 then Inl ZeroDivisionError
      else (case x of
              Fin a \<Rightarrow> Inr (fl_of (a / b))
            | PInf \<Rightarrow> Inr (if b > 0 then PInf else NInf)
            | NInf \<Rightarrow> Inr (if b > 0 then NInf else PInf)
            | NaN \<Rightarrow> Inr NaN))"
| "fl_div (Fin a) PInf = Inr (Fin 0)"
| "fl_div (Fin a) NInf = Inr (Fin 0)"
| "fl_div x y = Inr NaN"

fun fl_lt :: "pyfloat \<Rightarrow> pyfloat \<Rightarrow> bool" where
  "fl_lt (Fin a) (Fin b) = (a < b)"
| "fl_lt (Fin a) PInf = True"
| "fl_lt NInf (Fin b) = True"
| "fl_lt NInf PInf = True"
| "fl_lt x y = False"

definition fl_gt :: "pyfloat \<Rightarrow> pyfloat \<Rightarrow> bool" where
  "fl_gt x y = fl_lt y x"

definition fl_le :: "pyfloat \<Rightarrow> pyfloat \<Rightarrow> bool" where
  "fl_le x y = (fl_lt x y \<or> (x = y \<and> x \<noteq> NaN))"

definition fl_ge :: "pyfloat \<Rightarrow> pyfloat \<Rightarrow> bool" where
  "fl_ge x y = fl_le y x"

fun fl_abs :: "pyfloat \<Rightarrow> pyfloat" where
  "fl_abs (Fin a) = Fin \<bar>a\<bar>"
| "fl_abs PInf = PInf"
| "fl_abs NInf = PInf"
| "fl_abs NaN = NaN"


text \<open>\<^verbatim>\<open>float(tok)\<close> with its overflow, and the parser with it.\<close>

definition py_float_fl :: "string \<Rightarrow> py_error + pyfloat" where
  "py_float_fl tok = bindE (py_float tok) (\<lambda>r. Inr (fl_of r))"

type_synonym cost_table_fl = "(string \<times> pyfloat \<times> pyfloat) list"

definition to_ms_fl :: "pyfloat \<Rightarrow> string \<Rightarrow> pyfloat" where
  "to_ms_fl val unit = (if unit = ''ms'' then val else fl_times val 1000)"

fun parse_lines_fl :: "string list \<Rightarrow> cost_table_fl \<Rightarrow> py_error + cost_table_fl" where
  "parse_lines_fl [] functions = Inr functions"
| "parse_lines_fl (line # lines) functions =
     (case row_match line of
        None \<Rightarrow> parse_lines_fl lines functions
      | Some (g1, g2, g3, g4, g5) \<Rightarrow>
          (case py_float_fl g1 of
             Inl e \<Rightarrow> Inl e
           | Inr flat_val \<Rightarrow>
               (case py_float_fl g3 of
                  Inl e \<Rightarrow> Inl e
                | Inr cum_val \<Rightarrow>
                    parse_lines_fl lines
                      (AList.update (strip g5) (to_ms_fl flat_val g2, to_ms_fl cum_val g4)
                         functions))))"

definition parse_pprof_output_fl ::
  "string \<Rightarrow> py_error + (cost_table_fl \<times> pyfloat option \<times> pyfloat option)" where
  "parse_pprof_output_fl out =
     bindE (case re_search_at total_match_at out of
              None \<Rightarrow> Inr None
            | Some (g1, g2) \<Rightarrow> bindE (py_float_fl g1) (\<lambda>val. Inr (Some (to_ms_fl val g2)))) (\<lambda>total_samples.
     bindE (case re_search_at duration_match_at out of
              None \<Rightarrow> Inr None
            | Some g1 \<Rightarrow> bindE (py_float_fl g1) (\<lambda>d. Inr (Some d))) (\<lambda>duration.
     bindE (parse_lines_fl (split_lines out) []) (\<lambda>functions.
       Inr (functions, total_samples, duration))))"

text \<open>The entry, the two conditions and the loop of \<^verbatim>\<open>main\<close>, as above.\<close>

record entry_fl =
  name_fl :: string
  category_fl :: string
  old_flat_fl :: pyfloat
  new_flat_fl :: pyfloat
  flat_delta_fl :: pyfloat
  flat_pct_fl :: pyfloat
  old_cum_fl :: pyfloat
  new_cum_fl :: pyfloat
  cum_delta_fl :: pyfloat
  cum_pct_fl :: pyfloat

definition pct_change_fl :: "pyfloat \<Rightarrow> pyfloat \<Rightarrow> pyfloat \<Rightarrow> py_error + pyfloat" where
  "pct_change_fl delta old new =
     (if fl_gt old (Fin 0) then bindE (fl_div delta old) (\<lambda>q. Inr (fl_times q 100))
      else Inr (if fl_gt new (Fin 0) then Fin 100 else Fin 0))"

definition make_entry_fl ::
  "string \<Rightarrow> pyfloat \<times> pyfloat \<Rightarrow> pyfloat \<times> pyfloat \<Rightarrow> py_error + entry_fl" where
  "make_entry_fl nm old new =
     (case old of (oflat, ocum) \<Rightarrow> case new of (nflat, ncum) \<Rightarrow>
        let fdelta = fl_sub nflat oflat;
            cdelta = fl_sub ncum ocum
        in bindE (pct_change_fl fdelta oflat nflat) (\<lambda>fpct.
           bindE (pct_change_fl cdelta ocum ncum) (\<lambda>cpct.
             Inr \<lparr>name_fl = nm, category_fl = categorize_function nm,
                  old_flat_fl = oflat, new_flat_fl = nflat, flat_delta_fl = fdelta,
                  flat_pct_fl = fpct,
                  old_cum_fl = ocum, new_cum_fl = ncum, cum_delta_fl = cdelta,
                  cum_pct_fl = cpct\<rparr>)))"

definition is_regression_fl :: "args \<Rightarrow> entry_fl \<Rightarrow> bool" where
  "is_regression_fl a e =
     ((fl_gt (cum_pct_fl e) (Fin (threshold a)) \<and> fl_gt (fl_abs (cum_delta_fl e)) (Fin (min_delta a)))
      \<or> (fl_gt (flat_pct_fl e) (Fin (threshold a))
          \<and> fl_gt (fl_abs (flat_delta_fl e)) (Fin (min_delta a))))"

definition is_improvement_fl :: "args \<Rightarrow> entry_fl \<Rightarrow> bool" where
  "is_improvement_fl a e =
     ((fl_lt (cum_pct_fl e) (Fin (- threshold a)) \<and> fl_gt (fl_abs (cum_delta_fl e)) (Fin (min_delta a)))
      \<or> (fl_lt (flat_pct_fl e) (Fin (- threshold a))
          \<and> fl_gt (fl_abs (flat_delta_fl e)) (Fin (min_delta a))))"

fun compare_loop_fl ::
  "args \<Rightarrow> cost_table_fl \<Rightarrow> cost_table_fl \<Rightarrow> string list
     \<Rightarrow> entry_fl list \<times> entry_fl list \<times> entry_fl list
     \<Rightarrow> py_error + (entry_fl list \<times> entry_fl list \<times> entry_fl list)" where
  "compare_loop_fl a old_funcs new_funcs [] st = Inr st"
| "compare_loop_fl a old_funcs new_funcs (nm # names) (regs, imps, stab) =
     (case dict_get old_funcs nm of
        Inl e \<Rightarrow> Inl e
      | Inr old \<Rightarrow>
          (case dict_get new_funcs nm of
             Inl e \<Rightarrow> Inl e
           | Inr new \<Rightarrow>
               (case make_entry_fl nm old new of
                  Inl e \<Rightarrow> Inl e
                | Inr en \<Rightarrow>
                    if is_regression_fl a en then
                      compare_loop_fl a old_funcs new_funcs names (regs @ [en], imps, stab)
                    else if is_improvement_fl a en then
                      compare_loop_fl a old_funcs new_funcs names (regs, imps @ [en], stab)
                    else
                      compare_loop_fl a old_funcs new_funcs names (regs, imps, stab @ [en]))))"

text \<open>
  \<^verbatim>\<open>xs.sort(key=k, reverse=r)\<close>: an insertion sort that compares keys with \<^verbatim>\<open><\<close> alone and
  leaves keys it does not tell apart in their order; for \<^verbatim>\<open>reverse=True\<close> the list is
  reversed, sorted and reversed again. Where \<^verbatim>\<open><\<close> orders the keys this is the list every
  stable sort returns. With a NaN among the keys \<^verbatim>\<open><\<close> is no order, and the arrangement
  Python leaves is its algorithm's: of such a list only what holds of every arrangement
  is stated (at two elements, where the one possible comparison is false both ways, the
  list is left as it is).
\<close>

fun insort_lt :: "('a \<Rightarrow> pyfloat) \<Rightarrow> 'a \<Rightarrow> 'a list \<Rightarrow> 'a list" where
  "insort_lt k x [] = [x]"
| "insort_lt k x (y # ys) = (if fl_lt (k y) (k x) then y # insort_lt k x ys else x # y # ys)"

definition sort_lt :: "('a \<Rightarrow> pyfloat) \<Rightarrow> 'a list \<Rightarrow> 'a list" where
  "sort_lt k xs = foldr (insort_lt k) xs []"

definition list_sort :: "('a \<Rightarrow> pyfloat) \<Rightarrow> bool \<Rightarrow> 'a list \<Rightarrow> 'a list" where
  "list_sort k reverse xs = (if reverse then rev (sort_lt k (rev xs)) else sort_lt k xs)"

record comparison_fl =
  common_names_fl :: "string list"
  excluded_fl :: "string list"
  regressions_fl :: "entry_fl list"
  improvements_fl :: "entry_fl list"
  stable_fl :: "entry_fl list"

definition compare_fl :: "re_search \<Rightarrow> set_iter \<Rightarrow> args \<Rightarrow> cost_table_fl \<Rightarrow> cost_table_fl
                         \<Rightarrow> py_error + comparison_fl" where
  "compare_fl rs it a old_funcs new_funcs =
     (let common0 = set_and (set_of (keys old_funcs)) (set_of (keys new_funcs))
      in bindE (exclude_loop rs (exclude a) (it common0) ([], common0)) (\<lambda>(excl, common).
         bindE (compare_loop_fl a old_funcs new_funcs (it common) ([], [], [])) (\<lambda>(regs, imps, stab).
           Inr \<lparr>common_names_fl = common, excluded_fl = excl,
                regressions_fl = list_sort cum_delta_fl True regs,
                improvements_fl = list_sort cum_delta_fl False imps,
                stable_fl = stab\<rparr>)))"

subsection \<open>Predicates and examples used in the statements\<close>

text \<open>
  An iteration order is admissible when it lists every element of a set once: the
  elements of a set without duplicates, in some order.
\<close>

definition iter_ok :: "set_iter \<Rightarrow> bool" where
  "iter_ok it = (\<forall>s. distinct s \<longrightarrow> distinct (it s) \<and> set (it s) = set s)"

text \<open>The order in which the elements were inserted is one such order.\<close>

definition insertion_order :: set_iter where
  "insertion_order s = s"

text \<open>The entry \<^verbatim>\<open>main\<close> builds for a name, from the costs of the two tables.\<close>

definition entry_of :: "cost_table \<Rightarrow> cost_table \<Rightarrow> string \<Rightarrow> entry \<Rightarrow> bool" where
  "entry_of old_funcs new_funcs nm e =
     (\<exists>old new. dict_get old_funcs nm = Inr old \<and> dict_get new_funcs nm = Inr new
                \<and> make_entry nm old new = Inr e)"

text \<open>
  \<^verbatim>\<open>re.search\<close> for a pattern without metacharacters: there is a match when the pattern
  occurs in the name.
\<close>

definition literal_search :: re_search where
  "literal_search pat s = Some (contains s pat)"

text \<open>
  A run on which the statements are evaluated: the default arguments with the one
  exclusion pattern \<^verbatim>\<open>skip\<close>, a baseline table and a candidate table, and the
  comparison \<^verbatim>\<open>main\<close> builds from them.
\<close>

definition example_args :: args where
  "example_args = (default_args ''old.pb.gz'' ''new.pb.gz'')\<lparr>exclude := [''skip'']\<rparr>"

definition example_old :: cost_table where
  "example_old =
     [(''a'', 100, 100), (''b'', 200, 200), (''c'', 10, 10), (''d'', 100, 1000),
      (''e'', 0, 900), (''skip_me'', 5, 5), (''r150'', 1, 150), (''r250'', 1, 250)]"

definition example_new :: cost_table where
  "example_new =
     [(''a'', 200, 200), (''b'', 100, 100), (''c'', 13, 13), (''d'', 100, 2000),
      (''e'', 0, 450), (''skip_me'', 500, 500), (''n150'', 1, 150), (''n250'', 1, 250),
      (''n900'', 2, 900)]"

definition example_result :: comparison where
  "example_result =
     \<lparr>common_names = [''a'', ''b'', ''c'', ''d'', ''e''],
      excluded = [''skip_me''],
      regressions =
        [\<lparr>name = ''d'', category = ''OTHER'', old_flat = 100, new_flat = 100, flat_delta = 0,
          flat_pct = 0, old_cum = 1000, new_cum = 2000, cum_delta = 1000, cum_pct = 100\<rparr>,
         \<lparr>name = ''a'', category = ''OTHER'', old_flat = 100, new_flat = 200, flat_delta = 100,
          flat_pct = 100, old_cum = 100, new_cum = 200, cum_delta = 100, cum_pct = 100\<rparr>],
      improvements =
        [\<lparr>name = ''e'', category = ''OTHER'', old_flat = 0, new_flat = 0, flat_delta = 0,
          flat_pct = 0, old_cum = 900, new_cum = 450, cum_delta = - 450, cum_pct = - 50\<rparr>,
         \<lparr>name = ''b'', category = ''OTHER'', old_flat = 200, new_flat = 100, flat_delta = - 100,
          flat_pct = - 50, old_cum = 200, new_cum = 100, cum_delta = - 100, cum_pct = - 50\<rparr>],
      stable =
        [\<lparr>name = ''c'', category = ''OTHER'', old_flat = 10, new_flat = 13, flat_delta = 3,
          flat_pct = 30, old_cum = 10, new_cum = 13, cum_delta = 3, cum_pct = 30\<rparr>]\<rparr>"

text \<open>
  A format on which the statements are evaluated: a value is rounded to the nearest
  integer, or to the nearest tenth, a tie going to the even neighbour, which is what
  Python prints for a float that is its decimal value; \<open>plain\<close> is given one decimal
  place, as Python prints \<^verbatim>\<open>30.0\<close> and \<^verbatim>\<open>50.5\<close>.
\<close>

definition round_half_even :: "real \<Rightarrow> int" where
  "round_half_even x =
     (let f = \<lfloor>x\<rfloor>; d = x - of_int f
      in if d < 1 / 2 then f else if d > 1 / 2 then f + 1 else if even f then f else f + 1)"

fun group3 :: "nat \<Rightarrow> string" where
  "group3 n =
     (if n < 1000 then str_nat n
      else group3 (n div 1000) @ '','' @ [digit_char (n mod 1000 div 100),
             digit_char (n mod 100 div 10), digit_char (n mod 10)])"

declare group3.simps [simp del]

definition example_format :: float_format where
  "example_format =
     \<lparr>fixed0 = (\<lambda>x. (if x < 0 then ''-'' else []) @ str_nat (nat \<bar>round_half_even x\<bar>)),
      grouped0 = (\<lambda>x. (if x < 0 then ''-'' else []) @ group3 (nat \<bar>round_half_even x\<bar>)),
      fixed1 = (\<lambda>x. (if x < 0 then ''-'' else []) @ str_nat (nat \<bar>round_half_even (10 * x)\<bar> div 10)
                     @ ''.'' @ [digit_char (nat \<bar>round_half_even (10 * x)\<bar> mod 10)]),
      plain = (\<lambda>x. (if x < 0 then ''-'' else []) @ str_nat (nat \<bar>round_half_even (10 * x)\<bar> div 10)
                     @ ''.'' @ [digit_char (nat \<bar>round_half_even (10 * x)\<bar> mod 10)])\<rparr>"




text \<open>A step that only adds to what has been written.\<close>

definition appends :: "stage \<Rightarrow> bool" where
  "appends f = (\<forall>out. \<exists>ws. fst (f out) = out @ ws)"

text \<open>A step that does not end with the exception \<open>e\<close>, whatever has been written.\<close>

definition never_raises :: "py_error \<Rightarrow> stage \<Rightarrow> bool" where
  "never_raises e f = (\<forall>out. snd (f out) \<noteq> Some e)"

text \<open>
  The order of a list of entries by inclusive delta, with the comparisons \<^verbatim>\<open>>=\<close> and
  \<^verbatim>\<open><=\<close> of floats.
\<close>

definition non_increasing_fl :: "entry_fl list \<Rightarrow> bool" where
  "non_increasing_fl es = sorted_wrt (\<lambda>x y. fl_ge (cum_delta_fl x) (cum_delta_fl y)) es"

definition non_decreasing_fl :: "entry_fl list \<Rightarrow> bool" where
  "non_decreasing_fl es = sorted_wrt (\<lambda>x y. fl_le (cum_delta_fl x) (cum_delta_fl y)) es"

text \<open>
  A token of 310 digits, which \<^verbatim>\<open>float\<close> turns into infinity; two texts of the extractor
  in which the inclusive cost of \<^verbatim>\<open>a\<close> is that token, the tables they parse to, and the
  two entries of their comparison.
\<close>

definition huge_token :: string where
  "huge_token =
     ''1000000000000000000000000000000000000000000000000000000000000000000000000000000000000000000000000000000000000000000000000000000000000000000000000000000000000000000000000000000000000000000000000000000000000000000000000000000000000000000000000000000000000000000000000000000000000000000000000000000000000000000000''"

definition nan_old_output :: string where
  "nan_old_output =
     ''100ms 1% 1% '' @ huge_token @ ''ms 1% a\<newline>100ms 1% 1% 100ms 1% b''"

definition nan_new_output :: string where
  "nan_new_output =
     ''200ms 1% 1% '' @ huge_token @ ''ms 1% a\<newline>200ms 1% 1% 200ms 1% b''"

definition nan_old_table :: cost_table_fl where
  "nan_old_table = [(''a'', Fin 100, PInf), (''b'', Fin 100, Fin 100)]"

definition nan_new_table :: cost_table_fl where
  "nan_new_table = [(''a'', Fin 200, PInf), (''b'', Fin 200, Fin 200)]"

definition nan_regression :: entry_fl where
  "nan_regression =
     \<lparr>name_fl = ''a'', category_fl = ''OTHER'', old_flat_fl = Fin 100, new_flat_fl = Fin 200,
      flat_delta_fl = Fin 100, flat_pct_fl = Fin 100, old_cum_fl = PInf, new_cum_fl = PInf,
      cum_delta_fl = NaN, cum_pct_fl = NaN\<rparr>"

definition finite_regression :: entry_fl where
  "finite_regression =
     \<lparr>name_fl = ''b'', category_fl = ''OTHER'', old_flat_fl = Fin 100, new_flat_fl = Fin 200,
      flat_delta_fl = Fin 100, flat_pct_fl = Fin 100, old_cum_fl = Fin 100, new_cum_fl = Fin 200,
      cum_delta_fl = Fin 100, cum_pct_fl = Fin 100\<rparr>"

text \<open>
  Two tables with an infinite inclusive cost on one side only, where the deltas are
  infinite and none is NaN, and their comparison.
\<close>

definition inf_old_table :: cost_table_fl where
  "inf_old_table =
     [(''a'', Fin 100, Fin 1), (''b'', Fin 100, Fin 100), (''c'', Fin 10, Fin 500),
      (''d'', Fin 10, Fin 1500), (''e'', Fin 200, PInf)]"

definition inf_new_table :: cost_table_fl where
  "inf_new_table =
     [(''a'', Fin 200, PInf), (''b'', Fin 200, Fin 200), (''c'', Fin 10, Fin 1500),
      (''d'', Fin 10, Fin 750), (''e'', Fin 100, Fin 5)]"

definition inf_result :: comparison_fl where
  "inf_result =
     \<lparr>common_names_fl = [''a'', ''b'', ''c'', ''d'', ''e''],
      excluded_fl = [],
      regressions_fl =
        [\<lparr>name_fl = ''a'', category_fl = ''OTHER'', old_flat_fl = Fin 100, new_flat_fl = Fin 200,
          flat_delta_fl = Fin 100, flat_pct_fl = Fin 100, old_cum_fl = Fin 1, new_cum_fl = PInf,
          cum_delta_fl = PInf, cum_pct_fl = PInf\<rparr>,
         \<lparr>name_fl = ''c'', category_fl = ''OTHER'', old_flat_fl = Fin 10, new_flat_fl = Fin 10,
          flat_delta_fl = Fin 0, flat_pct_fl = Fin 0, old_cum_fl = Fin 500, new_cum_fl = Fin 1500,
          cum_delta_fl = Fin 1000, cum_pct_fl = Fin 200\<rparr>,
         \<lparr>name_fl = ''b'', category_fl = ''OTHER'', old_flat_fl = Fin 100, new_flat_fl = Fin 200,
          flat_delta_fl = Fin 100, flat_pct_fl = Fin 100, old_cum_fl = Fin 100, new_cum_fl = Fin 200,
          cum_delta_fl = Fin 100, cum_pct_fl = Fin 100\<rparr>],
      improvements_fl =
        [\<lparr>name_fl = ''e'', category_fl = ''OTHER'', old_flat_fl = Fin 200, new_flat_fl = Fin 100,
          flat_delta_fl = Fin (- 100), flat_pct_fl = Fin (- 50), old_cum_fl = PInf,
          new_cum_fl = Fin 5, cum_delta_fl = NInf, cum_pct_fl = NaN\<rparr>,
         \<lparr>name_fl = ''d'', category_fl = ''OTHER'', old_flat_fl = Fin 10, new_flat_fl = Fin 10,
          flat_delta_fl = Fin 0, flat_pct_fl = Fin 0, old_cum_fl = Fin 1500, new_cum_fl = Fin 750,
          cum_delta_fl = Fin (- 750), cum_pct_fl = Fin (- 50)\<rparr>],
      stable_fl = []\<rparr>"


section \<open>Properties of the embedding\<close>

subsection \<open>Auxiliary facts\<close>

lemma bindE_simps [simp]: "bindE (Inl e) f = Inl e" "bindE (Inr x) f = f x"
  by (simp_all add: bindE_def)

lemma bindE_eq_Inr: "bindE m f = Inr y \<longleftrightarrow> (\<exists>x. m = Inr x \<and> f x = Inr y)"
  by (cases m) simp_all

lemma startswith_prefix: "startswith s p \<longleftrightarrow> prefix p s"
  by (induction s p rule: startswith.induct) auto

lemma contains_sublist: "contains s sub \<longleftrightarrow> sublist sub s"
  by (induction s) (auto simp: startswith_prefix sublist_Cons_right)

lemma pct_change_eq:
  "pct_change delta old new =
     Inr (if old > 0 then delta / old * 100 else if new > 0 then 100 else 0)"
  by (simp add: pct_change_def py_div_def)

lemma make_entry_eq:
  "make_entry nm (oflat, ocum) (nflat, ncum) =
     Inr \<lparr>name = nm, category = categorize_function nm,
          old_flat = oflat, new_flat = nflat, flat_delta = nflat - oflat,
          flat_pct = (if oflat > 0 then (nflat - oflat) / oflat * 100 else if nflat > 0 then 100 else 0),
          old_cum = ocum, new_cum = ncum, cum_delta = ncum - ocum,
          cum_pct = (if ocum > 0 then (ncum - ocum) / ocum * 100 else if ncum > 0 then 100 else 0)\<rparr>"
  by (simp add: make_entry_def pct_change_eq Let_def)

lemma make_entry_total: "\<exists>e. make_entry nm old new = Inr e"
  by (cases old, cases new) (simp add: make_entry_eq)

lemma make_entry_name: "make_entry nm old new = Inr e \<Longrightarrow> name e = nm"
  by (cases old, cases new) (auto simp: make_entry_eq)

lemma format_change_cases:
  "\<exists>s. format_change fmt old_val new_val = Inr s
       \<and> (old_val = 0 \<and> new_val = 0 \<longrightarrow> s = ''0%'')
       \<and> (old_val = 0 \<and> new_val \<noteq> 0 \<longrightarrow> s = ''+NEW'')
       \<and> (old_val \<noteq> 0 \<longrightarrow> (\<exists>t. s = t @ ''%''))"
  by (simp add: format_change_def py_div_def Let_def)

lemma should_exclude_Inl: "should_exclude rs n pats = Inl e \<Longrightarrow> e = ReError"
  by (induction pats) (auto split: option.splits if_splits)

lemma should_exclude_False:
  "should_exclude rs n pats = Inr False \<longleftrightarrow> (\<forall>p\<in>set pats. rs p n = Some False)"
  by (induction pats) (auto split: option.splits if_splits)

lemma should_exclude_True:
  "should_exclude rs n pats = Inr b \<Longrightarrow> p \<in> set pats \<Longrightarrow> rs p n = Some True \<Longrightarrow> b"
  by (induction pats) (auto split: option.splits if_splits)

lemma exclude_loop_Inl: "exclude_loop rs pats names st = Inl e \<Longrightarrow> e = ReError"
  by (induction rs pats names st rule: exclude_loop.induct)
     (auto split: sum.splits if_splits dest: should_exclude_Inl)

lemma exclude_loop_Inr:
  "exclude_loop rs pats names (ex, cn) = Inr (ex', cn') \<Longrightarrow>
     (\<forall>n\<in>set names. \<exists>b. should_exclude rs n pats = Inr b)
     \<and> set ex' = set ex \<union> {n \<in> set names. should_exclude rs n pats = Inr True}
     \<and> cn' = filter (\<lambda>n. \<not> (n \<in> set names \<and> should_exclude rs n pats = Inr True)) cn
     \<and> (distinct ex \<longrightarrow> distinct ex')"
proof (induction names arbitrary: ex cn)
  case Nil
  then show ?case by simp
next
  case (Cons nm names)
  from Cons.prems obtain b where b: "should_exclude rs nm pats = Inr b"
    by (auto split: sum.splits)
  show ?case
  proof (cases b)
    case True
    with Cons.prems b
    have "exclude_loop rs pats names (set_add nm ex, set_discard nm cn) = Inr (ex', cn')"
      by simp
    from Cons.IH [OF this] b True show ?thesis
      by (auto simp: set_add_def set_discard_def removeAll_filter_not_eq intro!: filter_cong)
  next
    case False
    with Cons.prems b
    have "exclude_loop rs pats names (ex, cn) = Inr (ex', cn')"
      by simp
    from Cons.IH [OF this] b False show ?thesis
      by (auto intro!: filter_cong)
  qed
qed

lemma compare_loop_Inl:
  "compare_loop a old_funcs new_funcs names (regs, imps, stab) = Inl e \<Longrightarrow> e = KeyError"
proof (induction names arbitrary: regs imps stab)
  case Nil
  then show ?case by simp
next
  case (Cons nm names)
  show ?case
  proof (cases "dict_get old_funcs nm")
    case (Inl e1)
    with Cons.prems show ?thesis
      by (auto simp: dict_get_def split: option.splits)
  next
    case o: (Inr old)
    show ?thesis
    proof (cases "dict_get new_funcs nm")
      case (Inl e2)
      with Cons.prems o show ?thesis
        by (auto simp: dict_get_def split: option.splits)
    next
      case n: (Inr new)
      obtain en where en: "make_entry nm old new = Inr en"
        using make_entry_total by blast
      from Cons.prems o n en Cons.IH show ?thesis
        by (simp split: if_splits)
    qed
  qed
qed

lemma compare_loop_Inr:
  "compare_loop a old_funcs new_funcs names (regs, imps, stab) = Inr (regs', imps', stab') \<Longrightarrow>
     \<exists>es. list_all2 (entry_of old_funcs new_funcs) names es
        \<and> regs' = regs @ filter (is_regression a) es
        \<and> imps' = imps @ filter (\<lambda>e. \<not> is_regression a e \<and> is_improvement a e) es
        \<and> stab' = stab @ filter (\<lambda>e. \<not> is_regression a e \<and> \<not> is_improvement a e) es"
proof (induction names arbitrary: regs imps stab)
  case Nil
  then show ?case by simp
next
  case (Cons nm names)
  from Cons.prems obtain old new en where
    o: "dict_get old_funcs nm = Inr old" and n: "dict_get new_funcs nm = Inr new"
    and en: "make_entry nm old new = Inr en"
    by (auto split: sum.splits)
  have eo: "entry_of old_funcs new_funcs nm en"
    using o n en by (auto simp: entry_of_def)
  consider (r) "is_regression a en"
    | (i) "\<not> is_regression a en" "is_improvement a en"
    | (s) "\<not> is_regression a en" "\<not> is_improvement a en"
    by blast
  then show ?case
  proof cases
    case r
    with Cons.prems o n en
    have "compare_loop a old_funcs new_funcs names (regs @ [en], imps, stab) = Inr (regs', imps', stab')"
      by simp
    from Cons.IH [OF this] obtain es where
      "list_all2 (entry_of old_funcs new_funcs) names es"
      "regs' = (regs @ [en]) @ filter (is_regression a) es"
      "imps' = imps @ filter (\<lambda>e. \<not> is_regression a e \<and> is_improvement a e) es"
      "stab' = stab @ filter (\<lambda>e. \<not> is_regression a e \<and> \<not> is_improvement a e) es"
      by blast
    with eo r show ?thesis
      by (intro exI [of _ "en # es"]) simp
  next
    case i
    with Cons.prems o n en
    have "compare_loop a old_funcs new_funcs names (regs, imps @ [en], stab) = Inr (regs', imps', stab')"
      by simp
    from Cons.IH [OF this] obtain es where
      "list_all2 (entry_of old_funcs new_funcs) names es"
      "regs' = regs @ filter (is_regression a) es"
      "imps' = (imps @ [en]) @ filter (\<lambda>e. \<not> is_regression a e \<and> is_improvement a e) es"
      "stab' = stab @ filter (\<lambda>e. \<not> is_regression a e \<and> \<not> is_improvement a e) es"
      by blast
    with eo i show ?thesis
      by (intro exI [of _ "en # es"]) simp
  next
    case s
    with Cons.prems o n en
    have "compare_loop a old_funcs new_funcs names (regs, imps, stab @ [en]) = Inr (regs', imps', stab')"
      by simp
    from Cons.IH [OF this] obtain es where
      "list_all2 (entry_of old_funcs new_funcs) names es"
      "regs' = regs @ filter (is_regression a) es"
      "imps' = imps @ filter (\<lambda>e. \<not> is_regression a e \<and> is_improvement a e) es"
      "stab' = (stab @ [en]) @ filter (\<lambda>e. \<not> is_regression a e \<and> \<not> is_improvement a e) es"
      by blast
    with eo s show ?thesis
      by (intro exI [of _ "en # es"]) simp
  qed
qed

lemma entry_of_name: "entry_of old_funcs new_funcs nm e \<Longrightarrow> name e = nm"
  by (auto simp: entry_of_def dest: make_entry_name)

lemma list_all2_names:
  "list_all2 (entry_of old_funcs new_funcs) names es \<Longrightarrow> map name es = names"
  by (induction rule: list_all2_induct) (auto dest: entry_of_name)

lemma list_all2_right:
  "list_all2 P xs ys \<Longrightarrow> y \<in> set ys \<Longrightarrow> \<exists>x\<in>set xs. P x y"
  by (induction rule: list_all2_induct) auto

lemma dict_get_keys: "(\<exists>v. dict_get d k = Inr v) \<longleftrightarrow> k \<in> set (keys d)"
  by (auto simp: dict_get_def keys_def map_of_eq_None_iff split: option.splits)
     (metis domI domIff map_of_eq_None_iff)

lemma common0_props:
  "distinct (set_and (set_of (keys old_funcs)) (set_of (keys new_funcs)))"
  "set (set_and (set_of (keys old_funcs)) (set_of (keys new_funcs)))
     = set (keys old_funcs) \<inter> set (keys new_funcs)"
  by (auto simp: set_and_def set_of_def)

lemma sort_desc_props:
  "set (sort_desc k xs) = set xs"
  "length (sort_desc k xs) = length xs"
  "filter P (sort_desc k xs) = sort_desc k (filter P xs)"
  "sorted_wrt (\<lambda>x y. k x \<ge> k y) (sort_desc k xs)"
proof -
  have "sorted (map (\<lambda>x. - k x) (sort_key (\<lambda>x. - k x) xs))"
    by (rule sorted_sort_key)
  then show "sorted_wrt (\<lambda>x y. k x \<ge> k y) (sort_desc k xs)"
    by (simp add: sort_desc_def sorted_map)
qed (simp_all add: sort_desc_def filter_sort)

lemma sort_asc_props:
  "set (sort_asc k xs) = set xs"
  "length (sort_asc k xs) = length xs"
  "filter P (sort_asc k xs) = sort_asc k (filter P xs)"
  "sorted_wrt (\<lambda>x y. k x \<le> k y) (sort_asc k xs)"
proof -
  have "sorted (map k (sort_key k xs))"
    by (rule sorted_sort_key)
  then show "sorted_wrt (\<lambda>x y. k x \<le> k y) (sort_asc k xs)"
    by (simp add: sort_asc_def sorted_map)
qed (simp_all add: sort_asc_def filter_sort)

lemma compare_Inr:
  assumes c: "compare rs it a old_funcs new_funcs = Inr c" and it: "iter_ok it"
  shows "\<forall>n\<in>set (keys old_funcs) \<inter> set (keys new_funcs). \<exists>b. should_exclude rs n (exclude a) = Inr b"
    and "set (excluded c) = {n \<in> set (keys old_funcs) \<inter> set (keys new_funcs).
                               should_exclude rs n (exclude a) = Inr True}"
    and "distinct (excluded c)"
    and "common_names c = filter (\<lambda>n. should_exclude rs n (exclude a) \<noteq> Inr True)
                            (set_and (set_of (keys old_funcs)) (set_of (keys new_funcs)))"
    and "\<exists>es. list_all2 (entry_of old_funcs new_funcs) (it (common_names c)) es
           \<and> regressions c = sort_desc cum_delta (filter (is_regression a) es)
           \<and> improvements c = sort_asc cum_delta (filter (\<lambda>e. \<not> is_regression a e \<and> is_improvement a e) es)
           \<and> stable c = filter (\<lambda>e. \<not> is_regression a e \<and> \<not> is_improvement a e) es"
proof -
  let ?c0 = "set_and (set_of (keys old_funcs)) (set_of (keys new_funcs))"
  from c obtain excl common regs imps stab where
    ex: "exclude_loop rs (exclude a) (it ?c0) ([], ?c0) = Inr (excl, common)"
    and cl: "compare_loop a old_funcs new_funcs (it common) ([], [], []) = Inr (regs, imps, stab)"
    and ceq: "c = \<lparr>common_names = common, excluded = excl,
                  regressions = sort_desc cum_delta regs,
                  improvements = sort_asc cum_delta imps, stable = stab\<rparr>"
    by (auto simp: compare_def Let_def bindE_eq_Inr)
  have s0: "set (it ?c0) = set (keys old_funcs) \<inter> set (keys new_funcs)"
    using it common0_props [of old_funcs new_funcs] by (simp add: iter_ok_def)
  note E = exclude_loop_Inr [OF ex]
  from E s0 show "\<forall>n\<in>set (keys old_funcs) \<inter> set (keys new_funcs). \<exists>b. should_exclude rs n (exclude a) = Inr b"
    by simp
  from E s0 ceq show "set (excluded c) = {n \<in> set (keys old_funcs) \<inter> set (keys new_funcs).
                               should_exclude rs n (exclude a) = Inr True}"
    by simp
  from E ceq show "distinct (excluded c)" by simp
  from E have "common = filter (\<lambda>n. \<not> (n \<in> set (it ?c0) \<and> should_exclude rs n (exclude a) = Inr True)) ?c0"
    by simp
  also have "\<dots> = filter (\<lambda>n. should_exclude rs n (exclude a) \<noteq> Inr True) ?c0"
    using s0 common0_props(2) [of old_funcs new_funcs] by (intro filter_cong) auto
  finally show "common_names c = filter (\<lambda>n. should_exclude rs n (exclude a) \<noteq> Inr True) ?c0"
    using ceq by simp
  from compare_loop_Inr [OF cl] ceq
  show "\<exists>es. list_all2 (entry_of old_funcs new_funcs) (it (common_names c)) es
           \<and> regressions c = sort_desc cum_delta (filter (is_regression a) es)
           \<and> improvements c = sort_asc cum_delta (filter (\<lambda>e. \<not> is_regression a e \<and> is_improvement a e) es)
           \<and> stable c = filter (\<lambda>e. \<not> is_regression a e \<and> \<not> is_improvement a e) es"
    by auto
qed

lemma compare_common_distinct:
  assumes "compare rs it a old_funcs new_funcs = Inr c" and "iter_ok it"
  shows "distinct (common_names c)" "distinct (it (common_names c))"
    "set (it (common_names c)) = set (common_names c)"
proof -
  show d: "distinct (common_names c)"
    using compare_Inr(4) [OF assms] common0_props(1) [of old_funcs new_funcs] by simp
  with assms(2) show "distinct (it (common_names c))" "set (it (common_names c)) = set (common_names c)"
    by (simp_all add: iter_ok_def)
qed

lemma compare_Inl:
  "compare rs it a old_funcs new_funcs = Inl e \<Longrightarrow> e = ReError \<or> e = KeyError"
  by (auto simp: compare_def Let_def bindE_def split: sum.splits prod.splits
      dest: exclude_loop_Inl compare_loop_Inl)

lemma length_filter_unique:
  "distinct (map f xs) \<Longrightarrow> y \<in> f ` set xs \<Longrightarrow> length (filter (\<lambda>x. f x = y) xs) = 1"
proof (induction xs)
  case Nil
  then show ?case by simp
next
  case (Cons x xs)
  show ?case
  proof (cases "f x = y")
    case True
    from Cons.prems have "f x \<notin> f ` set xs" by simp
    with True have "\<forall>z\<in>set xs. f z \<noteq> y" by blast
    then have "filter (\<lambda>x. f x = y) xs = []"
      by (simp add: filter_empty_conv)
    with True show ?thesis by simp
  next
    case False
    with Cons show ?thesis by auto
  qed
qed

lemma length_filter_split3:
  "length (filter (\<lambda>x. R x \<and> Q x) xs) + length (filter (\<lambda>x. \<not> R x \<and> I x \<and> Q x) xs)
     + length (filter (\<lambda>x. \<not> R x \<and> \<not> I x \<and> Q x) xs) = length (filter Q xs)"
  by (induction xs) auto

lemma iter_ok_id: "iter_ok insertion_order"
  by (simp add: iter_ok_def insertion_order_def)

lemmas compare_eval =
  compare_def set_and_def set_of_def keys_def
  literal_search_def insertion_order_def dict_get_def make_entry_eq is_regression_def is_improvement_def
  sort_desc_def sort_asc_def set_add_def set_discard_def categorize_function_def

lemma compare_example:
  "compare literal_search insertion_order example_args example_old example_new = Inr example_result"
  by (simp add: compare_eval example_args_def example_old_def example_new_def default_args_def
      example_result_def)

lemma new_only_example:
  "new_only_filtered literal_search insertion_order example_args example_old example_new
     (excluded example_result) = Inr [(''n900'', 2, 900), (''n250'', 1, 250)]"
  by (simp add: compare_eval new_only_filtered_def only_filtered_def set_minus_def example_args_def
      example_old_def example_new_def default_args_def example_result_def)

lemma old_only_example:
  "old_only_filtered literal_search insertion_order example_args example_old example_new
     (excluded example_result) = Inr [(''r250'', 1, 250)]"
  by (simp add: compare_eval old_only_filtered_def only_filtered_def set_minus_def example_args_def
      example_old_def example_new_def default_args_def example_result_def)

lemma only_loop_Inr:
  "only_loop rs pats funcs names acc = Inr l \<Longrightarrow>
     (n, f, c) \<in> set l \<longleftrightarrow>
       (n, f, c) \<in> set acc
       \<or> (n \<in> set names \<and> should_exclude rs n pats = Inr False
          \<and> dict_get funcs n = Inr (f, c) \<and> c > 200)"
proof (induction names arbitrary: acc)
  case Nil
  then show ?case by simp
next
  case (Cons nm names)
  from Cons.prems obtain b where b: "should_exclude rs nm pats = Inr b"
    by (cases "should_exclude rs nm pats") simp_all
  show ?case
  proof (cases b)
    case True
    with Cons.prems b have "only_loop rs pats funcs names acc = Inr l" by simp
    from Cons.IH [OF this] b True show ?thesis by auto
  next
    case False
    with Cons.prems b obtain flat cum where g: "dict_get funcs nm = Inr (flat, cum)"
      by (cases "dict_get funcs nm") auto
    show ?thesis
    proof (cases "cum > 200")
      case c: True
      with Cons.prems b False g
      have "only_loop rs pats funcs names (acc @ [(nm, flat, cum)]) = Inr l" by simp
      from Cons.IH [OF this] b False g c show ?thesis by auto
    next
      case c: False
      with Cons.prems b False g
      have "only_loop rs pats funcs names acc = Inr l" by simp
      from Cons.IH [OF this] b False g c show ?thesis by auto
    qed
  qed
qed

lemma only_filtered_Inr:
  assumes "only_filtered rs it a funcs other excl = Inr l" and "iter_ok it"
  shows "(n, f, c) \<in> set l \<longleftrightarrow>
           n \<in> set (keys funcs) \<and> n \<notin> set (keys other) \<and> n \<notin> set excl
           \<and> should_exclude rs n (exclude a) = Inr False
           \<and> dict_get funcs n = Inr (f, c) \<and> c > 200"
    and "sorted_wrt (\<lambda>x y. snd (snd x) \<ge> snd (snd y)) l"
proof -
  let ?only = "set_minus (set_minus (set_of (keys funcs)) (set_of (keys other))) excl"
  from assms(1) obtain filtered where
    f: "only_loop rs (exclude a) funcs (it ?only) [] = Inr filtered"
    and l: "l = sort_desc (\<lambda>x. snd (snd x)) filtered"
    by (auto simp: only_filtered_def Let_def bindE_eq_Inr)
  have "distinct ?only" by (simp add: set_minus_def set_of_def)
  with assms(2) have "set (it ?only) = set ?only" by (simp add: iter_ok_def)
  also have "\<dots> = {n. n \<in> set (keys funcs) \<and> n \<notin> set (keys other) \<and> n \<notin> set excl}"
    by (auto simp: set_minus_def set_of_def)
  finally have s: "n \<in> set (it ?only) \<longleftrightarrow> n \<in> set (keys funcs) \<and> n \<notin> set (keys other) \<and> n \<notin> set excl"
    by simp
  from only_loop_Inr [OF f, of n f c] s l
  show "(n, f, c) \<in> set l \<longleftrightarrow>
           n \<in> set (keys funcs) \<and> n \<notin> set (keys other) \<and> n \<notin> set excl
           \<and> should_exclude rs n (exclude a) = Inr False
           \<and> dict_get funcs n = Inr (f, c) \<and> c > 200"
    by (simp add: sort_desc_props(1))
  from l show "sorted_wrt (\<lambda>x y. snd (snd x) \<ge> snd (snd y)) l"
    by (simp add: sort_desc_props(4))
qed

lemma it_Nil: "iter_ok it \<Longrightarrow> it [] = []"
  by (auto simp: iter_ok_def dest: spec [of _ "[]"])

lemma only_filtered_same:
  "iter_ok it \<Longrightarrow> only_filtered rs it a t t excl = Inr []"
  by (simp add: only_filtered_def set_minus_def set_of_def it_Nil sort_desc_def)

lemma should_exclude_total:
  "\<forall>p\<in>set pats. rs p n \<noteq> None \<Longrightarrow> \<exists>b. should_exclude rs n pats = Inr b"
  by (induction pats) (auto split: option.splits)

lemma exclude_loop_total:
  assumes "\<forall>p\<in>set pats. \<forall>n. rs p n \<noteq> None"
  shows "\<exists>st'. exclude_loop rs pats names st = Inr st'"
proof (induction names arbitrary: st)
  case Nil
  then show ?case by simp
next
  case (Cons nm names)
  obtain ex cn where st: "st = (ex, cn)" by (cases st)
  from assms obtain b where "should_exclude rs nm pats = Inr b"
    using should_exclude_total [of pats rs nm] by auto
  with Cons.IH st show ?case by (cases b) simp_all
qed

lemma compare_loop_total:
  assumes "\<forall>n\<in>set names. n \<in> set (keys old_funcs) \<and> n \<in> set (keys new_funcs)"
  shows "\<exists>st'. compare_loop a old_funcs new_funcs names st = Inr st'"
  using assms
proof (induction names arbitrary: st)
  case Nil
  show ?case by (cases st) auto
next
  case (Cons nm names)
  obtain regs imps stab where st: "st = (regs, imps, stab)" by (cases st) auto
  from Cons.prems obtain old new where
    o: "dict_get old_funcs nm = Inr old" and n: "dict_get new_funcs nm = Inr new"
    using dict_get_keys [of old_funcs nm] dict_get_keys [of new_funcs nm] by auto
  obtain en where en: "make_entry nm old new = Inr en"
    using make_entry_total by blast
  from Cons.prems have "\<forall>n\<in>set names. n \<in> set (keys old_funcs) \<and> n \<in> set (keys new_funcs)"
    by simp
  from Cons.IH [OF this] st o n en show ?case by simp
qed

lemma compare_total:
  assumes it: "iter_ok it" and rs: "\<forall>p\<in>set (exclude a). \<forall>n. rs p n \<noteq> None"
  shows "\<exists>c. compare rs it a old_funcs new_funcs = Inr c"
proof -
  let ?c0 = "set_and (set_of (keys old_funcs)) (set_of (keys new_funcs))"
  from exclude_loop_total [OF rs] obtain excl common where
    ex: "exclude_loop rs (exclude a) (it ?c0) ([], ?c0) = Inr (excl, common)"
    by (metis surj_pair)
  from exclude_loop_Inr [OF ex] have cm: "set common \<subseteq> set ?c0" "distinct common"
    using common0_props(1) [of old_funcs new_funcs] by auto
  with it have "set (it common) \<subseteq> set ?c0" by (simp add: iter_ok_def)
  then have "\<forall>n\<in>set (it common). n \<in> set (keys old_funcs) \<and> n \<in> set (keys new_funcs)"
    using common0_props(2) [of old_funcs new_funcs] by auto
  from compare_loop_total [OF this] obtain regs imps stab where
    "compare_loop a old_funcs new_funcs (it common) ([], [], []) = Inr (regs, imps, stab)"
    by (metis surj_pair)
  with ex show ?thesis
    by (simp add: compare_def)
qed

lemma entry_of_same_stable:
  assumes "entry_of t t nm e" and "0 \<le> threshold a \<or> 0 \<le> min_delta a"
  shows "\<not> is_regression a e \<and> \<not> is_improvement a e"
proof -
  from assms(1) obtain v where "make_entry nm v v = Inr e"
    by (auto simp: entry_of_def)
  then have "flat_delta e = 0 \<and> cum_delta e = 0 \<and> flat_pct e = 0 \<and> cum_pct e = 0"
    by (cases v) (auto simp: make_entry_eq)
  with assms(2) show ?thesis
    by (auto simp: is_regression_def is_improvement_def)
qed

lemma py_float_Inl: "py_float tok = Inl e \<Longrightarrow> e = ValueError"
  by (auto simp: py_float_def Let_def split: if_splits)

lemma parse_lines_Inl: "parse_lines lines acc = Inl e \<Longrightarrow> e = ValueError"
  by (induction lines arbitrary: acc)
     (auto split: option.splits sum.splits dest: py_float_Inl)


lemma parse_pprof_output_Inl: "parse_pprof_output out = Inl e \<Longrightarrow> e = ValueError"
  by (auto simp: parse_pprof_output_def bindE_def split: option.splits sum.splits
      dest: py_float_Inl parse_lines_Inl)







lemma appends_skip: "appends out_skip"
  by (simp add: appends_def out_skip_def)

lemma appends_seq: "appends f \<Longrightarrow> appends g \<Longrightarrow> appends (out_seq f g)"
  unfolding appends_def out_seq_def
proof
  fix out
  assume f: "\<forall>out. \<exists>ws. fst (f out) = out @ ws" and g: "\<forall>out. \<exists>ws. fst (g out) = out @ ws"
  obtain o1 r where fo: "f out = (o1, r)" by (cases "f out")
  from f fo obtain w1 where w1: "o1 = out @ w1" by (metis fst_conv)
  from g obtain w2 where w2: "fst (g o1) = o1 @ w2" by blast
  show "\<exists>ws. fst (case f out of (out', None) \<Rightarrow> g out' | (out', Some e) \<Rightarrow> (out', Some e)) = out @ ws"
    using fo w1 w2 by (cases r) auto
qed

lemma appends_seqs: "\<forall>f\<in>set fs. appends f \<Longrightarrow> appends (out_seqs fs)"
  by (induction fs) (simp_all add: appends_skip appends_seq)



lemma never_raises_write: "never_raises e (out_write s)"
  by (simp add: never_raises_def out_write_def)

lemma never_raises_skip: "never_raises e out_skip"
  by (simp add: never_raises_def out_skip_def)

lemma never_raises_seq: "never_raises e f \<Longrightarrow> never_raises e g \<Longrightarrow> never_raises e (out_seq f g)"
  unfolding never_raises_def out_seq_def
proof
  fix out
  assume f: "\<forall>out. snd (f out) \<noteq> Some e" and g: "\<forall>out. snd (g out) \<noteq> Some e"
  obtain o1 r where fo: "f out = (o1, r)" by (cases "f out")
  with f have "r \<noteq> Some e" by (metis snd_conv)
  with fo g show "snd (case f out of (out', None) \<Rightarrow> g out' | (out', Some e) \<Rightarrow> (out', Some e)) \<noteq> Some e"
    by (cases r) auto
qed

lemma never_raises_seqs: "\<forall>f\<in>set fs. never_raises e f \<Longrightarrow> never_raises e (out_seqs fs)"
  by (induction fs) (simp_all add: never_raises_skip never_raises_seq)

lemma never_raises_eval:
  "m \<noteq> Inl e \<Longrightarrow> (\<And>x. never_raises e (k x)) \<Longrightarrow> never_raises e (out_eval m k)"
  by (cases m) (simp_all add: never_raises_def out_eval_def)

lemma widen_row_Inl: "widen_row ws i cells = Inl e \<Longrightarrow> e = IndexError"
  by (induction cells arbitrary: ws i) (auto split: if_splits)

lemma widen_rows_Inl: "widen_rows ws rows = Inl e \<Longrightarrow> e = IndexError"
  by (induction rows arbitrary: ws) (auto split: sum.splits dest: widen_row_Inl)

lemma print_table_no_zde: "never_raises ZeroDivisionError (print_table headers rows)"
proof -
  have "widen_rows (map length headers) rows \<noteq> Inl ZeroDivisionError"
    using widen_rows_Inl by fastforce
  then show ?thesis
    unfolding print_table_def
    by (auto intro!: never_raises_write never_raises_eval never_raises_seq never_raises_seqs)
qed

lemma entry_row_total: "\<exists>row. entry_row fmt e = Inr row"
proof -
  obtain s1 where "format_change fmt (old_flat e) (new_flat e) = Inr s1"
    using format_change_cases by blast
  moreover obtain s2 where "format_change fmt (old_cum e) (new_cum e) = Inr s2"
    using format_change_cases by blast
  ultimately show ?thesis by (simp add: entry_row_def)
qed

lemma mapE_total: "(\<And>x. \<exists>y. f x = Inr y) \<Longrightarrow> \<exists>ys. mapE f xs = Inr ys"
proof (induction xs)
  case Nil
  then show ?case by simp
next
  case (Cons x xs)
  from Cons.prems obtain y where "f x = Inr y" by blast
  moreover from Cons obtain ys where "mapE f xs = Inr ys" by blast
  ultimately show ?case by simp
qed

lemma write_entries_no_zde: "never_raises ZeroDivisionError (write_entries fmt a es)"
proof -
  obtain rows where "mapE (entry_row fmt) (slice_to (top_n a) es) = Inr rows"
    using mapE_total [of "entry_row fmt"] entry_row_total by blast
  then show ?thesis
    unfolding write_entries_def
    by (auto intro!: never_raises_eval print_table_no_zde)
qed

lemma write_header_no_zde:
  "never_raises ZeroDivisionError (write_header fmt a c old_total old_duration new_total new_duration)"
proof -
  have fc: "format_change fmt x y \<noteq> Inl ZeroDivisionError" for x y
    using format_change_cases [of fmt x y] by auto
  show ?thesis
    unfolding write_header_def Let_def
    by (intro never_raises_seqs)
       (auto simp: py_div_def intro!: never_raises_write never_raises_skip never_raises_eval never_raises_seq fc)
qed

lemma write_regressions_no_zde:
  "never_raises ZeroDivisionError (write_regressions fmt a regs cats)"
  by (induction cats)
     (auto simp: Let_def intro!: never_raises_write never_raises_skip never_raises_seq
        write_entries_no_zde)

lemma write_improvements_no_zde:
  "never_raises ZeroDivisionError (write_improvements fmt a imps cats h)"
  by (induction cats arbitrary: h)
     (auto simp: Let_def intro!: never_raises_write never_raises_skip never_raises_seq
        write_entries_no_zde)

lemma write_only_no_zde: "never_raises ZeroDivisionError (write_only fmt a title filtered)"
  unfolding write_only_def
  by (auto intro!: never_raises_write never_raises_skip never_raises_seq print_table_no_zde)

lemma only_loop_Inl: "only_loop rs pats funcs names acc = Inl e \<Longrightarrow> e = ReError \<or> e = KeyError"
proof (induction names arbitrary: acc)
  case Nil
  then show ?case by simp
next
  case (Cons nm names)
  show ?case
  proof (cases "should_exclude rs nm pats")
    case (Inl e1)
    with Cons.prems show ?thesis by (auto dest: should_exclude_Inl)
  next
    case b: (Inr b)
    show ?thesis
    proof (cases "dict_get funcs nm")
      case (Inl e2)
      with Cons.prems b Cons.IH show ?thesis
        by (auto simp: dict_get_def split: option.splits if_splits)
    next
      case (Inr v)
      with Cons.prems b Cons.IH show ?thesis
        by (cases v) (auto split: if_splits)
    qed
  qed
qed

lemma only_filtered_Inl:
  "only_filtered rs it a funcs other excl = Inl e \<Longrightarrow> e = ReError \<or> e = KeyError"
  by (auto simp: only_filtered_def Let_def bindE_def split: sum.splits dest: only_loop_Inl)

lemma main_no_zde: "snd (main pprof rs it fmt a) \<noteq> Some ZeroDivisionError"
proof -
  have r: "never_raises ZeroDivisionError
     (out_seqs
        [write_header fmt a c old_total old_duration new_total new_duration,
         write_regressions fmt a (regressions c) categories,
         write_improvements fmt a (improvements c) categories False,
         out_eval (new_only_filtered rs it a old_funcs new_funcs (excluded c))
           (write_only fmt a t1),
         out_eval (old_only_filtered rs it a old_funcs new_funcs (excluded c))
           (write_only fmt a t2),
         out_write s])"
    for c old_total old_duration new_total new_duration old_funcs new_funcs t1 t2 s
  proof -
    have "new_only_filtered rs it a old_funcs new_funcs (excluded c) \<noteq> Inl ZeroDivisionError"
      "old_only_filtered rs it a old_funcs new_funcs (excluded c) \<noteq> Inl ZeroDivisionError"
      using only_filtered_Inl [of rs it a _ _ "excluded c" ZeroDivisionError]
      by (auto simp: new_only_filtered_def old_only_filtered_def)
    then show ?thesis
      by (intro never_raises_seqs)
         (auto intro!: never_raises_write never_raises_eval write_header_no_zde
            write_regressions_no_zde write_improvements_no_zde write_only_no_zde)
  qed
  show ?thesis
    unfolding main_def
    using r
    by (auto simp: never_raises_def split: option.splits sum.splits prod.splits
        dest: parse_pprof_output_Inl compare_Inl)
qed

lemma fl_lt_le: "fl_lt x y \<Longrightarrow> fl_le x y"
  by (simp add: fl_le_def)

lemma fl_not_lt_le: "x \<noteq> NaN \<Longrightarrow> y \<noteq> NaN \<Longrightarrow> \<not> fl_lt y x \<Longrightarrow> fl_le x y"
  by (cases x; cases y) (auto simp: fl_le_def)

lemma fl_le_trans: "fl_le x y \<Longrightarrow> fl_le y z \<Longrightarrow> fl_le x z"
  by (cases x; cases y; cases z) (auto simp: fl_le_def)

lemma fl_le_NaN: "\<not> fl_le NaN y" "\<not> fl_le x NaN"
  by (cases y; simp add: fl_le_def) (cases x; simp add: fl_le_def)

lemma set_insort_lt: "set (insort_lt k x ys) = insert x (set ys)"
  by (induction ys) auto

lemma set_sort_lt: "set (sort_lt k xs) = set xs"
  by (induction xs) (simp_all add: sort_lt_def set_insort_lt)

lemma set_list_sort: "set (list_sort k r xs) = set xs"
  by (simp add: list_sort_def set_sort_lt)

lemma length_insort_lt: "length (insort_lt k x ys) = Suc (length ys)"
  by (induction ys) auto

lemma length_list_sort: "length (list_sort k r xs) = length xs"
proof -
  have "length (sort_lt k ys) = length ys" for ys
    by (induction ys) (simp_all add: sort_lt_def length_insort_lt)
  then show ?thesis by (simp add: list_sort_def)
qed

lemma sorted_insort_lt:
  assumes "k x \<noteq> NaN" and "\<forall>y\<in>set ys. k y \<noteq> NaN"
    and "sorted_wrt (\<lambda>a b. fl_le (k a) (k b)) ys"
  shows "sorted_wrt (\<lambda>a b. fl_le (k a) (k b)) (insort_lt k x ys)"
  using assms(2,3)
proof (induction ys)
  case Nil
  then show ?case by simp
next
  case (Cons y ys)
  show ?case
  proof (cases "fl_lt (k y) (k x)")
    case True
    with Cons assms(1) show ?thesis
      by (auto simp: set_insort_lt dest: fl_lt_le)
  next
    case False
    with Cons.prems assms(1) have xy: "fl_le (k x) (k y)"
      by (simp add: fl_not_lt_le)
    with Cons.prems have "\<forall>z\<in>set ys. fl_le (k x) (k z)"
      by (auto intro: fl_le_trans)
    with False xy Cons.prems show ?thesis by simp
  qed
qed

lemma sorted_sort_lt:
  "\<forall>x\<in>set xs. k x \<noteq> NaN \<Longrightarrow> sorted_wrt (\<lambda>a b. fl_le (k a) (k b)) (sort_lt k xs)"
proof (induction xs)
  case Nil
  then show ?case by (simp add: sort_lt_def)
next
  case (Cons x xs)
  then have "sorted_wrt (\<lambda>a b. fl_le (k a) (k b)) (insort_lt k x (sort_lt k xs))"
    by (intro sorted_insort_lt) (simp_all add: set_sort_lt)
  then show ?case by (simp add: sort_lt_def)
qed

lemma sorted_list_sort:
  assumes "\<forall>x\<in>set xs. k x \<noteq> NaN"
  shows "sorted_wrt (\<lambda>a b. fl_le (k a) (k b)) (list_sort k False xs)"
    and "sorted_wrt (\<lambda>a b. fl_ge (k a) (k b)) (list_sort k True xs)"
proof -
  show "sorted_wrt (\<lambda>a b. fl_le (k a) (k b)) (list_sort k False xs)"
    using assms by (simp add: list_sort_def sorted_sort_lt)
  have "sorted_wrt (\<lambda>a b. fl_le (k a) (k b)) (sort_lt k (rev xs))"
    using assms by (intro sorted_sort_lt) simp
  then show "sorted_wrt (\<lambda>a b. fl_ge (k a) (k b)) (list_sort k True xs)"
    by (simp add: list_sort_def sorted_wrt_rev fl_ge_def)
qed

lemma nan_key_unsorted:
  assumes "e \<in> set es" and "k e = NaN" and "2 \<le> length es"
  shows "\<not> sorted_wrt (\<lambda>a b. fl_le (k a) (k b)) es" "\<not> sorted_wrt (\<lambda>a b. fl_ge (k a) (k b)) es"
proof -
  from assms(1) obtain i where i: "i < length es" "es ! i = e"
    by (auto simp: in_set_conv_nth)
  from assms(3) i(1) obtain j where j: "j < length es" "j \<noteq> i"
    by (metis One_nat_def Suc_1 Suc_le_lessD less_numeral_extra(3) zero_less_one_class.zero_less_one
        less_trans)
  have no: "\<not> fl_le (k (es ! i)) (k (es ! j))" "\<not> fl_le (k (es ! j)) (k (es ! i))"
    using i(2) assms(2) by (simp_all add: fl_le_NaN)
  show "\<not> sorted_wrt (\<lambda>a b. fl_le (k a) (k b)) es"
  proof
    assume "sorted_wrt (\<lambda>a b. fl_le (k a) (k b)) es"
    then have "\<forall>p q. p < q \<longrightarrow> q < length es \<longrightarrow> fl_le (k (es ! p)) (k (es ! q))"
      by (simp add: sorted_wrt_iff_nth_less)
    with i(1) j no show False
      by (metis linorder_neqE_nat)
  qed
  show "\<not> sorted_wrt (\<lambda>a b. fl_ge (k a) (k b)) es"
  proof
    assume "sorted_wrt (\<lambda>a b. fl_ge (k a) (k b)) es"
    then have "\<forall>p q. p < q \<longrightarrow> q < length es \<longrightarrow> fl_le (k (es ! q)) (k (es ! p))"
      by (simp add: sorted_wrt_iff_nth_less fl_ge_def)
    with i(1) j no show False
      by (metis linorder_neqE_nat)
  qed
qed

lemma make_entry_fl_cum_delta:
  "make_entry_fl nm (oflat, ocum) (nflat, ncum) = Inr e \<Longrightarrow> cum_delta_fl e = fl_sub ncum ocum"
  by (auto simp: make_entry_fl_def Let_def bindE_eq_Inr)

lemma compare_loop_fl_inv:
  assumes "compare_loop_fl a old_funcs new_funcs names (regs, imps, stab) = Inr (regs', imps', stab')"
    and "\<forall>e\<in>set regs \<union> set imps \<union> set stab. P e"
    and "\<And>nm old new e. dict_get old_funcs nm = Inr old \<Longrightarrow> dict_get new_funcs nm = Inr new
            \<Longrightarrow> make_entry_fl nm old new = Inr e \<Longrightarrow> P e"
  shows "\<forall>e\<in>set regs' \<union> set imps' \<union> set stab'. P e"
  using assms(1,2)
proof (induction names arbitrary: regs imps stab)
  case Nil
  then show ?case by simp
next
  case (Cons nm names)
  from Cons.prems(1) obtain old new en where
    o: "dict_get old_funcs nm = Inr old" and n: "dict_get new_funcs nm = Inr new"
    and en: "make_entry_fl nm old new = Inr en"
    by (auto split: sum.splits)
  from assms(3) [OF o n en] have p: "P en" .
  consider (r) "is_regression_fl a en"
    | (i) "\<not> is_regression_fl a en" "is_improvement_fl a en"
    | (s) "\<not> is_regression_fl a en" "\<not> is_improvement_fl a en"
    by blast
  then show ?case
  proof cases
    case r
    with Cons.prems(1) o n en
    have "compare_loop_fl a old_funcs new_funcs names (regs @ [en], imps, stab) = Inr (regs', imps', stab')"
      by simp
    moreover from Cons.prems(2) p have "\<forall>e\<in>set (regs @ [en]) \<union> set imps \<union> set stab. P e"
      by auto
    ultimately show ?thesis by (rule Cons.IH)
  next
    case i
    with Cons.prems(1) o n en
    have "compare_loop_fl a old_funcs new_funcs names (regs, imps @ [en], stab) = Inr (regs', imps', stab')"
      by simp
    moreover from Cons.prems(2) p have "\<forall>e\<in>set regs \<union> set (imps @ [en]) \<union> set stab. P e"
      by auto
    ultimately show ?thesis by (rule Cons.IH)
  next
    case s
    with Cons.prems(1) o n en
    have "compare_loop_fl a old_funcs new_funcs names (regs, imps, stab @ [en]) = Inr (regs', imps', stab')"
      by simp
    moreover from Cons.prems(2) p have "\<forall>e\<in>set regs \<union> set imps \<union> set (stab @ [en]). P e"
      by auto
    ultimately show ?thesis by (rule Cons.IH)
  qed
qed

lemma dict_get_in_set: "dict_get d k = Inr v \<Longrightarrow> (k, v) \<in> set d"
  by (auto simp: dict_get_def split: option.splits dest: map_of_SomeD)

lemmas compare_fl_eval =
  compare_fl_def set_and_def set_of_def keys_def literal_search_def insertion_order_def
  dict_get_def make_entry_fl_def pct_change_fl_def is_regression_fl_def is_improvement_fl_def
  list_sort_def sort_lt_def fl_gt_def fl_of_def float_overflow_def set_add_def set_discard_def
  categorize_function_def default_args_def Let_def

lemmas parse_eval =
  total_match_at_def duration_match_at_def row_match_def match_number_def
  match_unit_def match_spaces1_def match_pct_def match_tail_def is_space_def is_num_char_def
  is_digit_def py_float_def digits_val_def digit_val_def strip_def

lemma huge_token_inf: "py_float_fl huge_token = Inr PInf"
  by (simp add: py_float_fl_def huge_token_def py_float_def is_digit_def digits_val_def
      digit_val_def fl_of_def float_overflow_def)

lemma nan_old_parse:
  "parse_pprof_output_fl nan_old_output = Inr (nan_old_table, None, None)"
  by (simp add: parse_pprof_output_fl_def nan_old_output_def nan_old_table_def huge_token_def
      py_float_fl_def to_ms_fl_def fl_of_def float_overflow_def parse_eval)

lemma nan_new_parse:
  "parse_pprof_output_fl nan_new_output = Inr (nan_new_table, None, None)"
  by (simp add: parse_pprof_output_fl_def nan_new_output_def nan_new_table_def huge_token_def
      py_float_fl_def to_ms_fl_def fl_of_def float_overflow_def parse_eval)

lemma compare_inf_example:
  "compare_fl literal_search insertion_order (default_args ''old.pb.gz'' ''new.pb.gz'')
     inf_old_table inf_new_table = Inr inf_result"
  by (simp add: compare_fl_eval inf_old_table_def inf_new_table_def inf_result_def)




section \<open>The claims\<close>

text \<open>
  C1, as stated, fails: with the default threshold of 30 and floor of 50, a function whose
  inclusive cost goes from 200 to 300 while its exclusive cost goes from 200 to 100
  satisfies the regression condition through the inclusive metric and the improvement
  condition through the exclusive one; and with a threshold and a floor of -1, a function
  whose costs do not change satisfies both conditions.
\<close>

theorem regression_improvement_overlap_counterexample:
  "make_entry ''f'' (200, 200) (100, 300) =
     Inr \<lparr>name = ''f'', category = ''OTHER'', old_flat = 200, new_flat = 100,
          flat_delta = - 100, flat_pct = - 50, old_cum = 200, new_cum = 300,
          cum_delta = 100, cum_pct = 50\<rparr>
   \<and> is_regression (default_args ''old.pb.gz'' ''new.pb.gz'')
        \<lparr>name = ''f'', category = ''OTHER'', old_flat = 200, new_flat = 100,
         flat_delta = - 100, flat_pct = - 50, old_cum = 200, new_cum = 300,
         cum_delta = 100, cum_pct = 50\<rparr>
   \<and> is_improvement (default_args ''old.pb.gz'' ''new.pb.gz'')
        \<lparr>name = ''f'', category = ''OTHER'', old_flat = 200, new_flat = 100,
         flat_delta = - 100, flat_pct = - 50, old_cum = 200, new_cum = 300,
         cum_delta = 100, cum_pct = 50\<rparr>
   \<and> make_entry ''g'' (10, 10) (10, 10) =
     Inr \<lparr>name = ''g'', category = ''OTHER'', old_flat = 10, new_flat = 10,
          flat_delta = 0, flat_pct = 0, old_cum = 10, new_cum = 10,
          cum_delta = 0, cum_pct = 0\<rparr>
   \<and> is_regression ((default_args ''old.pb.gz'' ''new.pb.gz'')\<lparr>threshold := - 1, min_delta := - 1\<rparr>)
        \<lparr>name = ''g'', category = ''OTHER'', old_flat = 10, new_flat = 10,
         flat_delta = 0, flat_pct = 0, old_cum = 10, new_cum = 10,
         cum_delta = 0, cum_pct = 0\<rparr>
   \<and> is_improvement ((default_args ''old.pb.gz'' ''new.pb.gz'')\<lparr>threshold := - 1, min_delta := - 1\<rparr>)
        \<lparr>name = ''g'', category = ''OTHER'', old_flat = 10, new_flat = 10,
         flat_delta = 0, flat_pct = 0, old_cum = 10, new_cum = 10,
         cum_delta = 0, cum_pct = 0\<rparr>"
  by (simp add: make_entry_eq is_regression_def is_improvement_def default_args_def
      categorize_function_def)

text \<open>
  C1, amended. For a threshold that is not negative, the regression condition and the
  improvement condition hold together only across the two metrics, one metric's percent
  change above the threshold and the other's below its negation; on one metric they
  exclude each other. When both deltas are zero and the threshold or the floor is not
  negative, neither condition holds and the function is appended to the stable list.
\<close>

theorem regression_improvement_same_metric_exclusive:
  assumes "dict_get old_funcs nm = Inr old" and "dict_get new_funcs nm = Inr new"
    and "make_entry nm old new = Inr e"
  shows "(0 \<le> threshold a \<longrightarrow> is_regression a e \<longrightarrow> is_improvement a e \<longrightarrow>
            (cum_pct e > threshold a \<and> flat_pct e < - threshold a)
            \<or> (flat_pct e > threshold a \<and> cum_pct e < - threshold a))
       \<and> (flat_delta e = 0 \<and> cum_delta e = 0 \<and> (0 \<le> threshold a \<or> 0 \<le> min_delta a) \<longrightarrow>
            \<not> is_regression a e \<and> \<not> is_improvement a e
            \<and> compare_loop a old_funcs new_funcs [nm] ([], [], []) = Inr ([], [], [e]))"
proof -
  obtain oflat ocum nflat ncum where on: "old = (oflat, ocum)" "new = (nflat, ncum)"
    by (cases old, cases new) auto
  have 1: "0 \<le> threshold a \<longrightarrow> is_regression a e \<longrightarrow> is_improvement a e \<longrightarrow>
            (cum_pct e > threshold a \<and> flat_pct e < - threshold a)
            \<or> (flat_pct e > threshold a \<and> cum_pct e < - threshold a)"
    unfolding is_regression_def is_improvement_def by linarith
  have 2: "\<not> is_regression a e \<and> \<not> is_improvement a e
            \<and> compare_loop a old_funcs new_funcs [nm] ([], [], []) = Inr ([], [], [e])"
    if z: "flat_delta e = 0" "cum_delta e = 0" and t: "0 \<le> threshold a \<or> 0 \<le> min_delta a"
  proof -
    from assms(3) z have "flat_pct e = 0 \<and> cum_pct e = 0"
      unfolding on by (auto simp: make_entry_eq)
    with z t have "\<not> is_regression a e \<and> \<not> is_improvement a e"
      unfolding is_regression_def is_improvement_def by auto
    with assms show ?thesis by simp
  qed
  from 1 2 show ?thesis by blast
qed

theorem regression_improvement_same_metric_exclusive_witness:
  "dict_get [(''f'', 200::real, 200::real)] ''f'' = Inr (200, 200)
   \<and> dict_get [(''f'', 100::real, 300::real)] ''f'' = Inr (100, 300)
   \<and> is_regression (default_args ''o'' ''n'')
        \<lparr>name = ''f'', category = ''OTHER'', old_flat = 200, new_flat = 100,
         flat_delta = - 100, flat_pct = - 50, old_cum = 200, new_cum = 300,
         cum_delta = 100, cum_pct = 50\<rparr>
   \<and> is_improvement (default_args ''o'' ''n'')
        \<lparr>name = ''f'', category = ''OTHER'', old_flat = 200, new_flat = 100,
         flat_delta = - 100, flat_pct = - 50, old_cum = 200, new_cum = 300,
         cum_delta = 100, cum_pct = 50\<rparr>
   \<and> (50::real) > threshold (default_args ''o'' ''n'')
   \<and> (- 50::real) < - threshold (default_args ''o'' ''n'')
   \<and> dict_get [(''g'', 7::real, 9::real)] ''g'' = Inr (7, 9)
   \<and> compare_loop (default_args ''o'' ''n'') [(''g'', 7, 9)] [(''g'', 7, 9)] [''g''] ([], [], [])
       = Inr ([], [], [\<lparr>name = ''g'', category = ''OTHER'', old_flat = 7, new_flat = 7,
                         flat_delta = 0, flat_pct = 0, old_cum = 9, new_cum = 9,
                         cum_delta = 0, cum_pct = 0\<rparr>])"
proof -
  have f: "make_entry ''f'' (200, 200) (100, 300) =
     Inr \<lparr>name = ''f'', category = ''OTHER'', old_flat = 200, new_flat = 100,
          flat_delta = - 100, flat_pct = - 50, old_cum = 200, new_cum = 300,
          cum_delta = 100, cum_pct = 50\<rparr>"
    by (simp add: make_entry_eq categorize_function_def)
  have g: "make_entry ''g'' (7, 9) (7, 9) =
     Inr \<lparr>name = ''g'', category = ''OTHER'', old_flat = 7, new_flat = 7,
          flat_delta = 0, flat_pct = 0, old_cum = 9, new_cum = 9,
          cum_delta = 0, cum_pct = 0\<rparr>"
    by (simp add: make_entry_eq categorize_function_def)
  have df: "dict_get [(''f'', 200::real, 200::real)] ''f'' = Inr (200, 200)"
    "dict_get [(''f'', 100::real, 300::real)] ''f'' = Inr (100, 300)"
    "dict_get [(''g'', 7::real, 9::real)] ''g'' = Inr (7, 9)"
    by (simp_all add: dict_get_def)
  show ?thesis
    using regression_improvement_same_metric_exclusive [OF df(1) df(2) f, of "default_args ''o'' ''n''"]
      regression_improvement_same_metric_exclusive [OF df(3) df(3) g, of "default_args ''o'' ''n''"]
    by (simp add: df f g default_args_def is_regression_def is_improvement_def)
qed

text \<open>
  C2. Every matched function that is not excluded has one entry, and the entry is in
  exactly one of the three lists: in the regressions if and only if the inclusive
  percent change is above the threshold and the absolute inclusive delta above the
  floor, or the same holds of the exclusive metric; otherwise in the improvements if and
  only if the condition holds with the percent change below the negated threshold;
  otherwise in the stable list.
\<close>

theorem classification_exactly_one:
  assumes it: "iter_ok it" and c: "compare rs it a old_funcs new_funcs = Inr c"
    and nm: "nm \<in> set (common_names c)"
  shows "\<exists>old new e.
           dict_get old_funcs nm = Inr old \<and> dict_get new_funcs nm = Inr new
           \<and> make_entry nm old new = Inr e
           \<and> (e \<in> set (regressions c) \<longleftrightarrow>
                (cum_pct e > threshold a \<and> \<bar>cum_delta e\<bar> > min_delta a)
                \<or> (flat_pct e > threshold a \<and> \<bar>flat_delta e\<bar> > min_delta a))
           \<and> (e \<in> set (improvements c) \<longleftrightarrow>
                \<not> ((cum_pct e > threshold a \<and> \<bar>cum_delta e\<bar> > min_delta a)
                    \<or> (flat_pct e > threshold a \<and> \<bar>flat_delta e\<bar> > min_delta a))
                \<and> ((cum_pct e < - threshold a \<and> \<bar>cum_delta e\<bar> > min_delta a)
                    \<or> (flat_pct e < - threshold a \<and> \<bar>flat_delta e\<bar> > min_delta a)))
           \<and> (e \<in> set (stable c) \<longleftrightarrow>
                \<not> ((cum_pct e > threshold a \<and> \<bar>cum_delta e\<bar> > min_delta a)
                    \<or> (flat_pct e > threshold a \<and> \<bar>flat_delta e\<bar> > min_delta a))
                \<and> \<not> ((cum_pct e < - threshold a \<and> \<bar>cum_delta e\<bar> > min_delta a)
                    \<or> (flat_pct e < - threshold a \<and> \<bar>flat_delta e\<bar> > min_delta a)))
           \<and> length (filter (\<lambda>x. name x = nm) (regressions c @ improvements c @ stable c)) = 1"
proof -
  from compare_Inr(5) [OF c it] obtain es where
    es: "list_all2 (entry_of old_funcs new_funcs) (it (common_names c)) es"
    and r: "regressions c = sort_desc cum_delta (filter (is_regression a) es)"
    and i: "improvements c = sort_asc cum_delta (filter (\<lambda>e. \<not> is_regression a e \<and> is_improvement a e) es)"
    and s: "stable c = filter (\<lambda>e. \<not> is_regression a e \<and> \<not> is_improvement a e) es"
    by blast
  note d = compare_common_distinct [OF c it]
  have names: "map name es = it (common_names c)"
    using es by (rule list_all2_names)
  from nm d(3) names have "nm \<in> name ` set es"
    by (metis list.set_map)
  then obtain e where e: "e \<in> set es" "name e = nm" by auto
  from list_all2_right [OF es e(1)]
  obtain n where "n \<in> set (it (common_names c))" "entry_of old_funcs new_funcs n e"
    by blast
  with e(2) have eo: "entry_of old_funcs new_funcs nm e"
    by (auto dest: entry_of_name)
  then obtain old new where on: "dict_get old_funcs nm = Inr old" "dict_get new_funcs nm = Inr new"
    "make_entry nm old new = Inr e"
    by (auto simp: entry_of_def)
  have cnt: "length (filter (\<lambda>x. name x = nm) (regressions c @ improvements c @ stable c)) = 1"
  proof -
    have "length (filter (\<lambda>x. name x = nm) es) = 1"
      using d(2) names e by (intro length_filter_unique) auto
    moreover have "length (filter (\<lambda>x. name x = nm) (regressions c @ improvements c @ stable c))
        = length (filter (\<lambda>x. name x = nm) es)"
      unfolding r i s
      by (simp add: sort_desc_props(2,3) sort_asc_props(2,3) length_filter_split3 add.assoc [symmetric])
    ultimately show ?thesis by simp
  qed
  from e(1) have "(e \<in> set (regressions c) \<longleftrightarrow> is_regression a e)
      \<and> (e \<in> set (improvements c) \<longleftrightarrow> \<not> is_regression a e \<and> is_improvement a e)
      \<and> (e \<in> set (stable c) \<longleftrightarrow> \<not> is_regression a e \<and> \<not> is_improvement a e)"
    unfolding r i s by (simp add: sort_desc_props(1) sort_asc_props(1))
  with on cnt show ?thesis
    unfolding is_regression_def is_improvement_def by blast
qed

theorem classification_exactly_one_witness:
  "iter_ok insertion_order
   \<and> compare literal_search insertion_order example_args example_old example_new = Inr example_result
   \<and> ''b'' \<in> set (common_names example_result)
   \<and> length (filter (\<lambda>x. name x = ''b'')
        (regressions example_result @ improvements example_result @ stable example_result)) = 1"
  using classification_exactly_one [OF iter_ok_id compare_example, of "''b''"]
  by (simp add: iter_ok_id compare_example) (simp add: example_result_def)

text \<open>
  C3. When the old cost is zero the percent change is 100 if the new cost is positive
  and 0 otherwise, for the exclusive and for the inclusive metric; building an entry,
  the comparison, \<^verbatim>\<open>format_change\<close> and the whole of \<^verbatim>\<open>main\<close> never raise
  \<^verbatim>\<open>ZeroDivisionError\<close>; and
  \<^verbatim>\<open>format_change\<close> renders the marker \<^verbatim>\<open>+NEW\<close> exactly for a zero old value with a
  new value that is not zero, a text no numeric percentage is rendered as.
\<close>

theorem zero_baseline_percent_change:
  "pct_change delta 0 new = Inr (if new > 0 then 100 else 0)
   \<and> (\<exists>e. make_entry nm (oflat, ocum) (nflat, ncum) = Inr e
         \<and> (oflat = 0 \<longrightarrow> flat_pct e = (if nflat > 0 then 100 else 0))
         \<and> (ocum = 0 \<longrightarrow> cum_pct e = (if ncum > 0 then 100 else 0)))
   \<and> compare rs it a old_funcs new_funcs \<noteq> Inl ZeroDivisionError
   \<and> snd (main pprof rs it fmt a) \<noteq> Some ZeroDivisionError
   \<and> (\<exists>s. format_change fmt old_val new_val = Inr s)
   \<and> (format_change fmt old_val new_val = Inr ''+NEW'' \<longleftrightarrow> old_val = 0 \<and> new_val \<noteq> 0)"
proof -
  have 1: "pct_change delta 0 new = Inr (if new > 0 then 100 else 0)"
    by (simp add: pct_change_eq)
  have 2: "\<exists>e. make_entry nm (oflat, ocum) (nflat, ncum) = Inr e
         \<and> (oflat = 0 \<longrightarrow> flat_pct e = (if nflat > 0 then 100 else 0))
         \<and> (ocum = 0 \<longrightarrow> cum_pct e = (if ncum > 0 then 100 else 0))"
    by (simp add: make_entry_eq)
  have 3: "compare rs it a old_funcs new_funcs \<noteq> Inl ZeroDivisionError"
    using compare_Inl [of rs it a old_funcs new_funcs ZeroDivisionError] by auto
  from format_change_cases [of fmt old_val new_val] obtain s where
    s: "format_change fmt old_val new_val = Inr s"
    "old_val = 0 \<and> new_val = 0 \<longrightarrow> s = ''0%''"
    "old_val = 0 \<and> new_val \<noteq> 0 \<longrightarrow> s = ''+NEW''"
    "old_val \<noteq> 0 \<longrightarrow> (\<exists>t. s = t @ ''%'')"
    by blast
  have 5: "s = ''+NEW'' \<longleftrightarrow> old_val = 0 \<and> new_val \<noteq> 0"
  proof (cases "old_val = 0")
    case True
    with s(2,3) show ?thesis by (cases "new_val = 0") auto
  next
    case False
    with s(4) obtain t where "s = t @ ''%''" by blast
    then have "last s = CHR ''%''" by simp
    then have "s \<noteq> ''+NEW''" by auto
    with False show ?thesis by simp
  qed
  from 1 2 3 s(1) 5 main_no_zde [of pprof rs it fmt a] show ?thesis by auto
qed

theorem zero_baseline_percent_change_witness:
  "(0::real) = 0 \<and> (5::real) > 0
   \<and> pct_change 5 0 5 = Inr 100
   \<and> make_entry ''f'' (0, 0) (5, 0) =
       Inr \<lparr>name = ''f'', category = ''OTHER'', old_flat = 0, new_flat = 5, flat_delta = 5,
            flat_pct = 100, old_cum = 0, new_cum = 0, cum_delta = 0, cum_pct = 0\<rparr>
   \<and> format_change example_format 0 5 = Inr ''+NEW''"
  using zero_baseline_percent_change [where delta = 5 and new = 5 and nm = "''f''" and oflat = 0
      and ocum = 0 and nflat = 5 and ncum = 0 and fmt = example_format and old_val = 0
      and new_val = 5]
  by (auto simp: make_entry_eq categorize_function_def)

text \<open>
  C4, as stated, fails for a threshold and a floor that are both negative: a table
  compared with itself under the threshold -1 and the floor -1 has each of its
  functions among the regressions.
\<close>

theorem self_comparison_counterexample:
  "compare literal_search insertion_order
     ((default_args ''old.pb.gz'' ''new.pb.gz'')\<lparr>threshold := - 1, min_delta := - 1\<rparr>)
     [(''g'', 10, 10)] [(''g'', 10, 10)]
   = Inr \<lparr>common_names = [''g''], excluded = [],
          regressions =
            [\<lparr>name = ''g'', category = ''OTHER'', old_flat = 10, new_flat = 10, flat_delta = 0,
              flat_pct = 0, old_cum = 10, new_cum = 10, cum_delta = 0, cum_pct = 0\<rparr>],
          improvements = [], stable = []\<rparr>"
  by (simp add: compare_eval default_args_def)

text \<open>
  C4, amended. When the threshold or the floor is not negative, a table compared with
  itself has no regression and no improvement, every common name that is not excluded has
  its entry in the stable list, and the lists of the new and of the removed functions are
  empty; and the comparison returns whenever the exclusion patterns are regular
  expressions.
\<close>

theorem self_comparison_all_stable:
  assumes it: "iter_ok it" and t: "0 \<le> threshold a \<or> 0 \<le> min_delta a"
  shows "(\<forall>c. compare rs it a tbl tbl = Inr c \<longrightarrow>
            regressions c = [] \<and> improvements c = []
            \<and> map name (stable c) = it (common_names c)
            \<and> new_only_filtered rs it a tbl tbl (excluded c) = Inr []
            \<and> old_only_filtered rs it a tbl tbl (excluded c) = Inr [])
       \<and> ((\<forall>p\<in>set (exclude a). \<forall>n. rs p n \<noteq> None) \<longrightarrow> (\<exists>c. compare rs it a tbl tbl = Inr c))"
proof -
  have "regressions c = [] \<and> improvements c = []
            \<and> map name (stable c) = it (common_names c)
            \<and> new_only_filtered rs it a tbl tbl (excluded c) = Inr []
            \<and> old_only_filtered rs it a tbl tbl (excluded c) = Inr []"
    if c: "compare rs it a tbl tbl = Inr c" for c
  proof -
    from compare_Inr(5) [OF c it] obtain es where
      es: "list_all2 (entry_of tbl tbl) (it (common_names c)) es"
      and r: "regressions c = sort_desc cum_delta (filter (is_regression a) es)"
      and i: "improvements c = sort_asc cum_delta (filter (\<lambda>e. \<not> is_regression a e \<and> is_improvement a e) es)"
      and s: "stable c = filter (\<lambda>e. \<not> is_regression a e \<and> \<not> is_improvement a e) es"
      by blast
    have st: "\<forall>e\<in>set es. \<not> is_regression a e \<and> \<not> is_improvement a e"
      using list_all2_right [OF es] entry_of_same_stable [OF _ t] by blast
    then have "filter (is_regression a) es = []"
      "filter (\<lambda>e. \<not> is_regression a e \<and> is_improvement a e) es = []"
      "filter (\<lambda>e. \<not> is_regression a e \<and> \<not> is_improvement a e) es = es"
      by (simp_all add: filter_empty_conv filter_id_conv)
    with r i s list_all2_names [OF es] only_filtered_same [OF it, of rs a tbl] show ?thesis
      by (simp add: sort_desc_def sort_asc_def new_only_filtered_def old_only_filtered_def)
  qed
  with compare_total [OF it, of a rs tbl tbl] show ?thesis by blast
qed

theorem self_comparison_all_stable_witness:
  "iter_ok insertion_order
   \<and> (0 \<le> threshold example_args \<or> 0 \<le> min_delta example_args)
   \<and> compare literal_search insertion_order example_args example_new example_new
       = Inr \<lparr>common_names = [''a'', ''b'', ''c'', ''d'', ''e'', ''n150'', ''n250'', ''n900''],
              excluded = [''skip_me''], regressions = [], improvements = [],
              stable = map (\<lambda>(n, f, c). \<lparr>name = n, category = ''OTHER'', old_flat = f, new_flat = f,
                                          flat_delta = 0, flat_pct = 0, old_cum = c, new_cum = c,
                                          cum_delta = 0, cum_pct = 0\<rparr>)
                         [(''a'', 200, 200), (''b'', 100, 100), (''c'', 13, 13), (''d'', 100, 2000),
                          (''e'', 0, 450), (''n150'', 1, 150), (''n250'', 1, 250), (''n900'', 2, 900)]\<rparr>
   \<and> new_only_filtered literal_search insertion_order example_args example_new example_new
        [''skip_me''] = Inr []
   \<and> old_only_filtered literal_search insertion_order example_args example_new example_new
        [''skip_me''] = Inr []"
proof -
  have h: "0 \<le> threshold example_args \<or> 0 \<le> min_delta example_args"
    by (simp add: example_args_def default_args_def)
  have c: "compare literal_search insertion_order example_args example_new example_new
       = Inr \<lparr>common_names = [''a'', ''b'', ''c'', ''d'', ''e'', ''n150'', ''n250'', ''n900''],
              excluded = [''skip_me''], regressions = [], improvements = [],
              stable = map (\<lambda>(n, f, c). \<lparr>name = n, category = ''OTHER'', old_flat = f, new_flat = f,
                                          flat_delta = 0, flat_pct = 0, old_cum = c, new_cum = c,
                                          cum_delta = 0, cum_pct = 0\<rparr>)
                         [(''a'', 200, 200), (''b'', 100, 100), (''c'', 13, 13), (''d'', 100, 2000),
                          (''e'', 0, 450), (''n150'', 1, 150), (''n250'', 1, 250), (''n900'', 2, 900)]\<rparr>"
    by (simp add: compare_eval example_args_def example_new_def default_args_def)
  from self_comparison_all_stable [OF iter_ok_id h, of literal_search example_new]
  show ?thesis
    using iter_ok_id h c by simp
qed

text \<open>
  C5, as stated, fails on a cost that is infinite in both profiles: the inclusive delta
  of the function is NaN, the function is still a regression through its exclusive cost,
  and the list of the two regressions is in non-increasing order in neither of its two
  arrangements, whichever the sort leaves.
\<close>

theorem nan_delta_unsorted_counterexample:
  "py_float_fl huge_token = Inr PInf
   \<and> parse_pprof_output_fl nan_old_output = Inr (nan_old_table, None, None)
   \<and> parse_pprof_output_fl nan_new_output = Inr (nan_new_table, None, None)
   \<and> compare_fl literal_search insertion_order (default_args ''old.pb.gz'' ''new.pb.gz'')
        nan_old_table nan_new_table
       = Inr \<lparr>common_names_fl = [''a'', ''b''], excluded_fl = [],
              regressions_fl = [nan_regression, finite_regression],
              improvements_fl = [], stable_fl = []\<rparr>
   \<and> cum_delta_fl nan_regression = NaN \<and> cum_delta_fl finite_regression = Fin 100
   \<and> \<not> non_increasing_fl [nan_regression, finite_regression]
   \<and> \<not> non_increasing_fl [finite_regression, nan_regression]"
proof -
  have "compare_fl literal_search insertion_order (default_args ''old.pb.gz'' ''new.pb.gz'')
        nan_old_table nan_new_table
       = Inr \<lparr>common_names_fl = [''a'', ''b''], excluded_fl = [],
              regressions_fl = [nan_regression, finite_regression],
              improvements_fl = [], stable_fl = []\<rparr>"
    by (simp add: compare_fl_eval nan_old_table_def nan_new_table_def nan_regression_def
        finite_regression_def)
  moreover have "\<not> non_increasing_fl [nan_regression, finite_regression]"
    "\<not> non_increasing_fl [finite_regression, nan_regression]"
    "cum_delta_fl nan_regression = NaN" "cum_delta_fl finite_regression = Fin 100"
    by (simp_all add: non_increasing_fl_def nan_regression_def finite_regression_def fl_ge_def
        fl_le_def)
  ultimately show ?thesis
    using huge_token_inf nan_old_parse nan_new_parse by simp
qed

text \<open>
  C5, amended. In every comparison in which no inclusive delta of the regressions is
  NaN, the regressions are in non-increasing order of inclusive delta, and likewise the
  improvements in non-decreasing order; this is so whenever every inclusive cost of the
  two tables is finite. A list of two entries or more with a NaN among its inclusive
  deltas is not in order.
\<close>

theorem regressions_improvements_sorted_without_nan:
  assumes c: "compare_fl rs it a old_funcs new_funcs = Inr c"
  shows "((\<forall>e\<in>set (regressions_fl c). cum_delta_fl e \<noteq> NaN) \<longrightarrow> non_increasing_fl (regressions_fl c))
       \<and> ((\<forall>e\<in>set (improvements_fl c). cum_delta_fl e \<noteq> NaN) \<longrightarrow> non_decreasing_fl (improvements_fl c))
       \<and> ((\<forall>(nm, flat, cum)\<in>set old_funcs \<union> set new_funcs. \<exists>r. cum = Fin r) \<longrightarrow>
            non_increasing_fl (regressions_fl c) \<and> non_decreasing_fl (improvements_fl c))
       \<and> ((\<exists>e\<in>set (regressions_fl c). cum_delta_fl e = NaN) \<and> 2 \<le> length (regressions_fl c) \<longrightarrow>
            \<not> non_increasing_fl (regressions_fl c))
       \<and> ((\<exists>e\<in>set (improvements_fl c). cum_delta_fl e = NaN) \<and> 2 \<le> length (improvements_fl c) \<longrightarrow>
            \<not> non_decreasing_fl (improvements_fl c))"
proof -
  from c obtain common regs imps stab where
    cl: "compare_loop_fl a old_funcs new_funcs (it common) ([], [], []) = Inr (regs, imps, stab)"
    and r: "regressions_fl c = list_sort cum_delta_fl True regs"
    and i: "improvements_fl c = list_sort cum_delta_fl False imps"
    by (auto simp: compare_fl_def Let_def bindE_eq_Inr)
  have 1: "non_increasing_fl (regressions_fl c)" if "\<forall>e\<in>set (regressions_fl c). cum_delta_fl e \<noteq> NaN"
    using that unfolding r non_increasing_fl_def
    by (intro sorted_list_sort(2)) (simp add: set_list_sort)
  have 2: "non_decreasing_fl (improvements_fl c)" if "\<forall>e\<in>set (improvements_fl c). cum_delta_fl e \<noteq> NaN"
    using that unfolding i non_decreasing_fl_def
    by (intro sorted_list_sort(1)) (simp add: set_list_sort)
  have 3: "non_increasing_fl (regressions_fl c) \<and> non_decreasing_fl (improvements_fl c)"
    if fin: "\<forall>(nm, flat, cum)\<in>set old_funcs \<union> set new_funcs. \<exists>r. cum = Fin r"
  proof -
    have "cum_delta_fl e \<noteq> NaN"
      if o: "dict_get old_funcs nm = Inr old" and n: "dict_get new_funcs nm = Inr new"
        and e: "make_entry_fl nm old new = Inr e" for nm old new e
    proof -
      obtain oflat ocum nflat ncum where on: "old = (oflat, ocum)" "new = (nflat, ncum)"
        by (cases old, cases new) auto
      from dict_get_in_set [OF o] on have "(nm, oflat, ocum) \<in> set old_funcs \<union> set new_funcs"
        by simp
      with fin obtain ro where ro: "ocum = Fin ro" by blast
      from dict_get_in_set [OF n] on have "(nm, nflat, ncum) \<in> set old_funcs \<union> set new_funcs"
        by simp
      with fin obtain rn where rn: "ncum = Fin rn" by blast
      note ro rn
      with make_entry_fl_cum_delta [OF e [unfolded on]] show ?thesis
        by (simp add: fl_of_def)
    qed
    from compare_loop_fl_inv [where P = "\<lambda>e. cum_delta_fl e \<noteq> NaN", OF cl _ this]
    have "\<forall>e\<in>set regs \<union> set imps \<union> set stab. cum_delta_fl e \<noteq> NaN" by simp
    then have "\<forall>e\<in>set (regressions_fl c). cum_delta_fl e \<noteq> NaN"
      "\<forall>e\<in>set (improvements_fl c). cum_delta_fl e \<noteq> NaN"
      unfolding r i by (simp_all add: set_list_sort)
    with 1 2 show ?thesis by blast
  qed
  have 4: "\<not> non_increasing_fl (regressions_fl c)"
    if "\<exists>e\<in>set (regressions_fl c). cum_delta_fl e = NaN" "2 \<le> length (regressions_fl c)"
    using that nan_key_unsorted(2) [of _ "regressions_fl c" cum_delta_fl]
    by (auto simp: non_increasing_fl_def)
  have 5: "\<not> non_decreasing_fl (improvements_fl c)"
    if "\<exists>e\<in>set (improvements_fl c). cum_delta_fl e = NaN" "2 \<le> length (improvements_fl c)"
    using that nan_key_unsorted(1) [of _ "improvements_fl c" cum_delta_fl]
    by (auto simp: non_decreasing_fl_def)
  from 1 2 3 4 5 show ?thesis by blast
qed

theorem regressions_improvements_sorted_without_nan_witness:
  "compare_fl literal_search insertion_order (default_args ''old.pb.gz'' ''new.pb.gz'')
     inf_old_table inf_new_table = Inr inf_result
   \<and> map cum_delta_fl (regressions_fl inf_result) = [PInf, Fin 1000, Fin 100]
   \<and> map cum_delta_fl (improvements_fl inf_result) = [NInf, Fin (- 750)]
   \<and> non_increasing_fl (regressions_fl inf_result)
   \<and> non_decreasing_fl (improvements_fl inf_result)"
proof -
  have k: "map cum_delta_fl (regressions_fl inf_result) = [PInf, Fin 1000, Fin 100]"
    "map cum_delta_fl (improvements_fl inf_result) = [NInf, Fin (- 750)]"
    by (simp_all add: inf_result_def)
  have n: "\<forall>e\<in>set (regressions_fl inf_result). cum_delta_fl e \<noteq> NaN"
    "\<forall>e\<in>set (improvements_fl inf_result). cum_delta_fl e \<noteq> NaN"
    by (simp_all add: inf_result_def)
  from regressions_improvements_sorted_without_nan [OF compare_inf_example] n k compare_inf_example
  show ?thesis by blast
qed

text \<open>
  C6. A name that is in both tables and that an exclusion pattern matches is the name of
  no entry of the regressions, the improvements or the stable list, is not among the
  common names that are counted, and is one of the excluded names, which are counted once
  each: the two counts add up to the size of the intersection.
\<close>

theorem excluded_function_in_no_category:
  assumes it: "iter_ok it" and c: "compare rs it a old_funcs new_funcs = Inr c"
    and nm: "nm \<in> set (keys old_funcs)" "nm \<in> set (keys new_funcs)"
    and pat: "pat \<in> set (exclude a)" "rs pat nm = Some True"
  shows "nm \<notin> name ` set (regressions c) \<and> nm \<notin> name ` set (improvements c)
       \<and> nm \<notin> name ` set (stable c)
       \<and> nm \<notin> set (common_names c)
       \<and> nm \<in> set (excluded c) \<and> distinct (excluded c)
       \<and> length (common_names c) + length (excluded c)
           = card (set (keys old_funcs) \<inter> set (keys new_funcs))"
proof -
  let ?c0 = "set_and (set_of (keys old_funcs)) (set_of (keys new_funcs))"
  let ?P = "\<lambda>n. should_exclude rs n (exclude a) = Inr True"
  note C = compare_Inr [OF c it]
  from C(1) nm obtain b where "should_exclude rs nm (exclude a) = Inr b" by blast
  with should_exclude_True [OF this pat] have t: "?P nm" by simp
  with C(2) nm have ex: "nm \<in> set (excluded c)" by simp
  from t C(4) have cn: "nm \<notin> set (common_names c)" by simp
  from C(5) obtain es where
    es: "list_all2 (entry_of old_funcs new_funcs) (it (common_names c)) es"
    and r: "regressions c = sort_desc cum_delta (filter (is_regression a) es)"
    and i: "improvements c = sort_asc cum_delta (filter (\<lambda>e. \<not> is_regression a e \<and> is_improvement a e) es)"
    and s: "stable c = filter (\<lambda>e. \<not> is_regression a e \<and> \<not> is_improvement a e) es"
    by blast
  have "name ` set es = set (common_names c)"
    using list_all2_names [OF es] compare_common_distinct(3) [OF c it]
    by (metis list.set_map)
  with cn have "nm \<notin> name ` set es" by simp
  then have lists: "nm \<notin> name ` set (regressions c) \<and> nm \<notin> name ` set (improvements c)
       \<and> nm \<notin> name ` set (stable c)"
    unfolding r i s by (auto simp: sort_desc_props(1) sort_asc_props(1))
  have "length (excluded c) = card (set (excluded c))"
    using C(3) by (simp add: distinct_card)
  also have "set (excluded c) = set (filter ?P ?c0)"
    using C(2) common0_props(2) [of old_funcs new_funcs] by auto
  also have "card \<dots> = length (filter ?P ?c0)"
    using common0_props(1) [of old_funcs new_funcs] by (intro distinct_card distinct_filter)
  finally have "length (common_names c) + length (excluded c) = length ?c0"
    using C(4) sum_length_filter_compl [of ?P ?c0] by (simp add: comp_def)
  also have "\<dots> = card (set (keys old_funcs) \<inter> set (keys new_funcs))"
    using common0_props [of old_funcs new_funcs] by (metis distinct_card)
  finally show ?thesis
    using lists cn ex C(3) by simp
qed

theorem excluded_function_in_no_category_witness:
  "iter_ok insertion_order
   \<and> compare literal_search insertion_order example_args example_old example_new = Inr example_result
   \<and> ''skip_me'' \<in> set (keys example_old) \<and> ''skip_me'' \<in> set (keys example_new)
   \<and> ''skip'' \<in> set (exclude example_args) \<and> literal_search ''skip'' ''skip_me'' = Some True
   \<and> ''skip_me'' \<notin> name ` set (regressions example_result)
   \<and> ''skip_me'' \<notin> set (common_names example_result)
   \<and> ''skip_me'' \<in> set (excluded example_result)
   \<and> length (common_names example_result) = 5 \<and> length (excluded example_result) = 1
   \<and> card (set (keys example_old) \<inter> set (keys example_new)) = 6"
proof -
  have h: "''skip_me'' \<in> set (keys example_old)" "''skip_me'' \<in> set (keys example_new)"
    "''skip'' \<in> set (exclude example_args)" "literal_search ''skip'' ''skip_me'' = Some True"
    by (simp_all add: keys_def example_old_def example_new_def example_args_def default_args_def
        literal_search_def)
  have l: "length (common_names example_result) = 5" "length (excluded example_result) = 1"
    by (simp_all add: example_result_def)
  from excluded_function_in_no_category [OF iter_ok_id compare_example h] l
  show ?thesis
    by (simp add: iter_ok_id compare_example h)
qed

text \<open>
  C7. A function that is in one table only and that no exclusion pattern matches is in
  the list of the new functions (of the removed ones, when the table is the baseline) if
  and only if its inclusive cost is above 200, and the list is in non-increasing order of
  inclusive cost. With the costs 150 and 250 of the example, the first is left out and
  the second is listed.
\<close>

theorem new_removed_significance_floor:
  assumes it: "iter_ok it" and c: "compare rs it a old_funcs new_funcs = Inr c"
    and nx: "\<forall>p\<in>set (exclude a). rs p nm = Some False"
  shows "(nm \<in> set (keys new_funcs) \<and> nm \<notin> set (keys old_funcs)
          \<and> dict_get new_funcs nm = Inr (flat, cum)
          \<and> new_only_filtered rs it a old_funcs new_funcs (excluded c) = Inr l
          \<longrightarrow> ((nm, flat, cum) \<in> set l \<longleftrightarrow> cum > 200) \<and> (nm \<in> fst ` set l \<longleftrightarrow> cum > 200)
              \<and> sorted_wrt (\<lambda>x y. snd (snd x) \<ge> snd (snd y)) l)
       \<and> (nm \<in> set (keys old_funcs) \<and> nm \<notin> set (keys new_funcs)
          \<and> dict_get old_funcs nm = Inr (flat, cum)
          \<and> old_only_filtered rs it a old_funcs new_funcs (excluded c) = Inr l
          \<longrightarrow> ((nm, flat, cum) \<in> set l \<longleftrightarrow> cum > 200) \<and> (nm \<in> fst ` set l \<longleftrightarrow> cum > 200)
              \<and> sorted_wrt (\<lambda>x y. snd (snd x) \<ge> snd (snd y)) l)"
proof -
  from nx have se: "should_exclude rs nm (exclude a) = Inr False"
    by (simp add: should_exclude_False)
  have ex: "set (excluded c) \<subseteq> set (keys old_funcs) \<inter> set (keys new_funcs)"
    using compare_Inr(2) [OF c it] by auto
  have main: "((nm, flat, cum) \<in> set l \<longleftrightarrow> cum > 200) \<and> (nm \<in> fst ` set l \<longleftrightarrow> cum > 200)
              \<and> sorted_wrt (\<lambda>x y. snd (snd x) \<ge> snd (snd y)) l"
    if k: "nm \<in> set (keys funcs)" "nm \<notin> set (keys other)" "nm \<notin> set (excluded c)"
      and g: "dict_get funcs nm = Inr (flat, cum)"
      and l: "only_filtered rs it a funcs other (excluded c) = Inr l"
    for funcs other
  proof -
    note F = only_filtered_Inr [OF l it]
    from F(1) [of nm flat cum] k g se have 1: "(nm, flat, cum) \<in> set l \<longleftrightarrow> cum > 200"
      by simp
    have 2: "nm \<in> fst ` set l \<longleftrightarrow> cum > 200"
    proof
      assume "nm \<in> fst ` set l"
      then obtain f' c' where m: "(nm, f', c') \<in> set l" by force
      with F(1) [of nm f' c'] g show "cum > 200" by simp
    next
      assume "cum > 200"
      with 1 show "nm \<in> fst ` set l" by force
    qed
    from 1 2 F(2) show ?thesis by simp
  qed
  show ?thesis
    using main [of new_funcs old_funcs] main [of old_funcs new_funcs] ex
    by (auto simp: new_only_filtered_def old_only_filtered_def)
qed

theorem new_removed_significance_floor_witness:
  "iter_ok insertion_order
   \<and> compare literal_search insertion_order example_args example_old example_new = Inr example_result
   \<and> exclude example_args = [''skip'']
   \<and> literal_search ''skip'' ''n150'' = Some False \<and> literal_search ''skip'' ''n250'' = Some False
   \<and> literal_search ''skip'' ''r150'' = Some False \<and> literal_search ''skip'' ''r250'' = Some False
   \<and> dict_get example_new ''n150'' = Inr (1, 150) \<and> dict_get example_new ''n250'' = Inr (1, 250)
   \<and> dict_get example_old ''r150'' = Inr (1, 150) \<and> dict_get example_old ''r250'' = Inr (1, 250)
   \<and> new_only_filtered literal_search insertion_order example_args example_old example_new
        (excluded example_result) = Inr [(''n900'', 2, 900), (''n250'', 1, 250)]
   \<and> old_only_filtered literal_search insertion_order example_args example_old example_new
        (excluded example_result) = Inr [(''r250'', 1, 250)]
   \<and> ''n150'' \<notin> fst ` set [(''n900'', 2::real, 900::real), (''n250'', 1, 250)]
   \<and> ''n250'' \<in> fst ` set [(''n900'', 2::real, 900::real), (''n250'', 1, 250)]
   \<and> ''r150'' \<notin> fst ` set [(''r250'', 1::real, 250::real)]
   \<and> ''r250'' \<in> fst ` set [(''r250'', 1::real, 250::real)]"
proof -
  have nx: "\<forall>p\<in>set (exclude example_args). literal_search p ''n150'' = Some False"
    "\<forall>p\<in>set (exclude example_args). literal_search p ''n250'' = Some False"
    "\<forall>p\<in>set (exclude example_args). literal_search p ''r150'' = Some False"
    "\<forall>p\<in>set (exclude example_args). literal_search p ''r250'' = Some False"
    by (simp_all add: example_args_def default_args_def literal_search_def)
  have k: "''n150'' \<in> set (keys example_new) \<and> ''n150'' \<notin> set (keys example_old)"
    "''n250'' \<in> set (keys example_new) \<and> ''n250'' \<notin> set (keys example_old)"
    "''r150'' \<in> set (keys example_old) \<and> ''r150'' \<notin> set (keys example_new)"
    "''r250'' \<in> set (keys example_old) \<and> ''r250'' \<notin> set (keys example_new)"
    by (simp_all add: keys_def example_old_def example_new_def)
  have g: "dict_get example_new ''n150'' = Inr (1, 150)" "dict_get example_new ''n250'' = Inr (1, 250)"
    "dict_get example_old ''r150'' = Inr (1, 150)" "dict_get example_old ''r250'' = Inr (1, 250)"
    by (simp_all add: dict_get_def example_old_def example_new_def)
  show ?thesis
    using new_removed_significance_floor [OF iter_ok_id compare_example nx(1), of 1 150 "[(''n900'', 2, 900), (''n250'', 1, 250)]"]
      new_removed_significance_floor [OF iter_ok_id compare_example nx(2), of 1 250 "[(''n900'', 2, 900), (''n250'', 1, 250)]"]
      new_removed_significance_floor [OF iter_ok_id compare_example nx(3), of 1 150 "[(''r250'', 1, 250)]"]
      new_removed_significance_floor [OF iter_ok_id compare_example nx(4), of 1 250 "[(''r250'', 1, 250)]"]
      iter_ok_id compare_example k g new_only_example old_only_example
    by (simp add: example_args_def default_args_def literal_search_def)
qed




text \<open>
  C9. \<^verbatim>\<open>categorize_function\<close> gives every name one category, by the first rule that
  matches: the prefix \<^verbatim>\<open>game_main/\<close> gives \<^verbatim>\<open>YOUR_CODE\<close> whatever else the name
  holds; otherwise the prefix \<^verbatim>\<open>runtime.\<close> gives \<^verbatim>\<open>RUNTIME\<close>, also when the name holds
  \<^verbatim>\<open>ebiten\<close> or \<^verbatim>\<open>ecs\<close>; otherwise a name that holds \<^verbatim>\<open>ebiten\<close> or \<^verbatim>\<open>ebitenui\<close> is
  \<^verbatim>\<open>EBITEN\<close>; otherwise a name that holds \<^verbatim>\<open>ecs\<close> is \<^verbatim>\<open>ECS\<close>; otherwise \<^verbatim>\<open>OTHER\<close>.
\<close>

theorem categorize_function_priority:
  "(prefix ''game_main/'' n \<longrightarrow> categorize_function n = ''YOUR_CODE'')
   \<and> (\<not> prefix ''game_main/'' n \<and> prefix ''runtime.'' n \<longrightarrow> categorize_function n = ''RUNTIME'')
   \<and> (\<not> prefix ''game_main/'' n \<and> \<not> prefix ''runtime.'' n
        \<and> (sublist ''ebiten'' n \<or> sublist ''ebitenui'' n) \<longrightarrow> categorize_function n = ''EBITEN'')
   \<and> (\<not> prefix ''game_main/'' n \<and> \<not> prefix ''runtime.'' n
        \<and> \<not> sublist ''ebiten'' n \<and> \<not> sublist ''ebitenui'' n \<and> sublist ''ecs'' n
        \<longrightarrow> categorize_function n = ''ECS'')
   \<and> (\<not> prefix ''game_main/'' n \<and> \<not> prefix ''runtime.'' n
        \<and> \<not> sublist ''ebiten'' n \<and> \<not> sublist ''ebitenui'' n \<and> \<not> sublist ''ecs'' n
        \<longrightarrow> categorize_function n = ''OTHER'')"
  by (simp add: categorize_function_def startswith_prefix contains_sublist)

theorem categorize_function_priority_witness:
  "prefix ''game_main/'' ''game_main/runtime.ecs''
   \<and> categorize_function ''game_main/runtime.ecs'' = ''YOUR_CODE''
   \<and> \<not> prefix ''game_main/'' ''runtime.ebiten.ecs'' \<and> prefix ''runtime.'' ''runtime.ebiten.ecs''
   \<and> sublist ''ebiten'' ''runtime.ebiten.ecs'' \<and> sublist ''ecs'' ''runtime.ebiten.ecs''
   \<and> categorize_function ''runtime.ebiten.ecs'' = ''RUNTIME''
   \<and> sublist ''ebitenui'' ''x/ebitenui/ecs'' \<and> sublist ''ecs'' ''x/ebitenui/ecs''
   \<and> categorize_function ''x/ebitenui/ecs'' = ''EBITEN''
   \<and> sublist ''ecs'' ''x/ecs.Q'' \<and> categorize_function ''x/ecs.Q'' = ''ECS''
   \<and> categorize_function ''fmt.Println'' = ''OTHER''"
  using categorize_function_priority [of "''game_main/runtime.ecs''"]
    categorize_function_priority [of "''runtime.ebiten.ecs''"]
    categorize_function_priority [of "''x/ebitenui/ecs''"]
    categorize_function_priority [of "''x/ecs.Q''"]
    categorize_function_priority [of "''fmt.Println''"]
  by (simp add: sublist_Cons_right)



end
